theory Spec2Isabelle
  imports Main "HOL-Library.Sublist" "HOL-Library.Word"
begin

unbundle bit_operations_syntax

section \<open>Network authentication helper: selections and guessers (Source/na.c)\<close>

text \<open>
  The development embeds the selection set, the guessers of \<open>NAHCreate\<close>, the
  Kerberos acquisition step, the reference key and the completion latch of
  \<open>Source/na.c\<close>.

  Conventions of the embedding.
  \<^item> A \<open>CFStringRef\<close> is a \<open>string\<close> (a list of bytes); a pointer that may be
    \<open>NULL\<close> is an \<open>option\<close>. \<open>CFStringCompare(a, b, 0)\<close> is equality of the
    two lists; the case-insensitive comparison folds the ASCII letters.
  \<^item> A \<open>NAHSelectionRef\<close> returned by \<open>addSelection\<close> points into
    \<open>na->selections\<close>: it is the index of the record in that list.
  \<^item> A \<open>dispatch_semaphore_t\<close> is a handle into the store \<open>sems\<close> of semaphore
    values kept with the session.
  \<^item> The providers the file calls (Kerberos, GSS, certificates, preferences,
    realm discovery) are the fields of an environment record: each field is the
    answer of one external call.
  \<^item> \<open>CFStringCreateWithFormat\<close>, \<open>CFStringCreateWithSubstring\<close>,
    \<open>CFStringCreateMutableCopy\<close> and the UTF-8 conversions are taken to succeed;
    the allocation of a selection instance may fail and is a parameter.
\<close>

subsection \<open>CoreFoundation strings\<close>

definition CFStringHasPrefix :: "string \<Rightarrow> string \<Rightarrow> bool" where
  \<comment> \<open>an anchored find; the find of an empty string reports no match\<close>
  "CFStringHasPrefix str p \<longleftrightarrow> p \<noteq> [] \<and> prefix p str"

definition CFStringHasSuffix :: "string \<Rightarrow> string \<Rightarrow> bool" where
  "CFStringHasSuffix str p \<longleftrightarrow> p \<noteq> [] \<and> suffix p str"

fun CFStringFind :: "string \<Rightarrow> string \<Rightarrow> nat option" where
  \<comment> \<open>location of the first occurrence of the pattern\<close>
  "CFStringFind [] pat = None"
| "CFStringFind (c # cs) pat =
     (if pat \<noteq> [] \<and> prefix pat (c # cs) then Some 0
      else map_option Suc (CFStringFind cs pat))"

definition CFStringCreateWithSubstring :: "string \<Rightarrow> nat \<Rightarrow> nat \<Rightarrow> string" where
  "CFStringCreateWithSubstring str loc len = take len (drop loc str)"

definition toupper :: "char \<Rightarrow> char" where
  "toupper c =
     (if 97 \<le> (of_char c :: nat) \<and> (of_char c :: nat) \<le> 122
      then char_of ((of_char c :: nat) - 32) else c)"

definition tolower :: "char \<Rightarrow> char" where
  "tolower c =
     (if 65 \<le> (of_char c :: nat) \<and> (of_char c :: nat) \<le> 90
      then char_of ((of_char c :: nat) + 32) else c)"

definition CFStringUppercase :: "string \<Rightarrow> string" where
  "CFStringUppercase str = map toupper str"

definition CFStringEqualCaseInsensitive :: "string \<Rightarrow> string \<Rightarrow> bool" where
  \<comment> \<open>\<open>CFStringCompare(a, b, kCFCompareCaseInsensitive) == kCFCompareEqualTo\<close>\<close>
  "CFStringEqualCaseInsensitive a b \<longleftrightarrow> map tolower a = map tolower b"

definition CFStringTrim :: "string \<Rightarrow> char \<Rightarrow> string" where
  \<comment> \<open>removes the occurrences of a one-character trim string at both ends\<close>
  "CFStringTrim str c = rev (dropWhile (\<lambda>x. x = c) (rev (dropWhile (\<lambda>x. x = c) str)))"

definition backslash :: string where
  "backslash = [CHR 0x5C]"

subsection \<open>Mechanisms, name types, flags\<close>

datatype NAHMechType =
  NO_MECH | GSS_KERBEROS | GSS_KERBEROS_U2U | GSS_KERBEROS_IAKERB | GSS_KERBEROS_PKU2U | GSS_NTLM

definition mechs :: "(string \<times> NAHMechType) list" where
  "mechs =
     [(''Kerberos'', GSS_KERBEROS),
      (''KerberosUser2User'', GSS_KERBEROS_U2U),
      (''PKU2U'', GSS_KERBEROS_PKU2U),
      (''IAKerb'', GSS_KERBEROS_IAKERB),
      (''NTLM'', GSS_NTLM)]"

fun name2mech_loop :: "(string \<times> NAHMechType) list \<Rightarrow> string \<Rightarrow> NAHMechType" where
  "name2mech_loop [] name = NO_MECH"
| "name2mech_loop ((nm, m) # rest) name =
     (if CFStringEqualCaseInsensitive nm name then m else name2mech_loop rest name)"

definition name2mech :: "string option \<Rightarrow> NAHMechType" where
  "name2mech name = (case name of None \<Rightarrow> NO_MECH | Some nm \<Rightarrow> name2mech_loop mechs nm)"

fun mech2name_loop :: "(string \<times> NAHMechType) list \<Rightarrow> NAHMechType \<Rightarrow> string option" where
  "mech2name_loop [] m = None"
| "mech2name_loop ((nm, m') # rest) m =
     (if m' = m then Some nm else mech2name_loop rest m)"

definition mech2name :: "NAHMechType \<Rightarrow> string option" where
  "mech2name m = mech2name_loop mechs m"

definition kNAHNTUsername :: string where
  "kNAHNTUsername = ''kNAHNTUsername''"

definition kNAHNTServiceBasedName :: string where
  "kNAHNTServiceBasedName = ''kNAHNTServiceBasedName''"

definition kNAHNTKRB5PrincipalReferral :: string where
  "kNAHNTKRB5PrincipalReferral = ''kNAHNTKRB5PrincipalReferral''"

definition kNAHNTKRB5Principal :: string where
  "kNAHNTKRB5Principal = ''kNAHNTKRB5Principal''"

definition kNAHNTUUID :: string where
  "kNAHNTUUID = ''kNAHNTUUID''"

definition USE_SPNEGO :: "64 word" where
  "USE_SPNEGO = 1"

definition FORCE_ADD :: "64 word" where
  "FORCE_ADD = 2"

subsection \<open>Selections and the session\<close>

type_synonym SecCertificateRef = nat
type_synonym krb5_ccache = nat
type_synonym dispatch_semaphore_t = nat
type_synonym NAHSelectionRef = nat

record NAHSelectionData =
  wait :: "dispatch_semaphore_t option"
  waiting :: int
  have_cred :: bool
  canceled :: bool
  mech :: NAHMechType
  client :: "string option"
  clienttype :: string
  server :: "string option"
  servertype :: string
  certificate :: "SecCertificateRef option"
  spnego :: bool
  inferredLabel :: "string option"
  ccache :: "krb5_ccache option"

datatype mech_oid =
  kGSSAPIMechIAKERB | kGSSAPIMechSupportsAppleLKDC | kGSSAPIMechPKU2UOID
  | kGSSAPIMechKerberosOID | kGSSAPIMechKerberosMicrosoftOID | kGSSAPIMechNTLMOID
  | OtherMechOID string

record NAHData =
  hostname :: string
  service :: string
  username :: string
  specificname :: "string option"
  servermechs :: "(mech_oid \<rightharpoonup> string) option"
  spnegoServerName :: "string option"
  x509identities :: "SecCertificateRef list option"
  password :: "string option"
  krb_context :: bool
  hxctx :: bool
  selections :: "NAHSelectionData list"
  sems :: "int list"
  bgq :: "NAHSelectionRef list"

text \<open>
  \<open>sems\<close> holds the value of every semaphore created so far, and \<open>bgq\<close> the
  selections for which a \<open>classic_lkdc_background\<close> block has been put on the
  background queue and has not run yet.
\<close>

definition NAHSelectionAlloc :: "bool \<Rightarrow> NAHSelectionData option" where
  \<comment> \<open>a zeroed instance with \<open>spnego = true\<close>; the name types are set by the caller\<close>
  "NAHSelectionAlloc ok =
     (if ok then
        Some \<lparr> wait = None, waiting = 0, have_cred = False, canceled = False,
               mech = NO_MECH, client = None, clienttype = [], server = None,
               servertype = [], certificate = None, spnego = True,
               inferredLabel = None, ccache = None \<rparr>
      else None)"

definition haveMech :: "NAHData \<Rightarrow> mech_oid \<Rightarrow> bool" where
  "haveMech na m =
     (case servermechs na of None \<Rightarrow> False
      | Some d \<Rightarrow> (case d m of Some v \<Rightarrow> True | None \<Rightarrow> False))"

subsection \<open>addSelection\<close>

fun dup_scan ::
  "NAHSelectionData list \<Rightarrow> nat \<Rightarrow> NAHMechType \<Rightarrow> string \<Rightarrow> string option \<Rightarrow> string
     \<Rightarrow> NAHSelectionRef option" where
  \<comment> \<open>the loop \<open>check for dups\<close>: the index of the first record that passes the four tests\<close>
  "dup_scan [] n m c s st = None"
| "dup_scan (nasel # rest) n m c s st =
     (if mech nasel \<noteq> m then dup_scan rest (Suc n) m c s st
      else if client nasel \<noteq> Some c then dup_scan rest (Suc n) m c s st
      else if server nasel \<noteq> None \<and> s \<noteq> None \<and> server nasel \<noteq> s
        then dup_scan rest (Suc n) m c s st
      else if servertype nasel \<noteq> st then dup_scan rest (Suc n) m c s st
      else Some n)"

definition matching_filter :: "NAHData \<Rightarrow> string \<Rightarrow> 64 word \<Rightarrow> bool" where
  \<comment> \<open>the value of the local \<open>matching\<close>\<close>
  "matching_filter na c flags \<longleftrightarrow>
     flags AND FORCE_ADD \<noteq> 0
     \<or> (case specificname na of None \<Rightarrow> True | Some sn \<Rightarrow> CFStringHasPrefix c sn)"

definition addSelection ::
  "bool \<Rightarrow> NAHData \<Rightarrow> string \<Rightarrow> string option \<Rightarrow> string option \<Rightarrow> string option
     \<Rightarrow> NAHMechType \<Rightarrow> int option \<Rightarrow> 64 word
     \<Rightarrow> NAHSelectionRef option \<times> int option \<times> NAHData" where
  \<comment> \<open>the result is the returned pointer, the cell \<open>*duplicate\<close> after the call
      (\<open>None\<close> for a \<open>NULL\<close> pointer) and the session\<close>
  "addSelection ok na c ctype s stype m duplicate flags =
     (let ct = (case ctype of None \<Rightarrow> kNAHNTUsername | Some t \<Rightarrow> t);
          st = (case stype of None \<Rightarrow> kNAHNTServiceBasedName | Some t \<Rightarrow> t)
      in if \<not> matching_filter na c flags then (None, duplicate, na)
         else
           (case dup_scan (selections na) 0 m c s st of
              Some n \<Rightarrow> (Some n, map_option (\<lambda>_. 1) duplicate, na)
            | None \<Rightarrow>
                (case NAHSelectionAlloc ok of
                   None \<Rightarrow> (None, map_option (\<lambda>_. 0) duplicate, na)
                 | Some nasel \<Rightarrow>
                     (Some (length (selections na)),
                      map_option (\<lambda>_. 0) duplicate,
                      na \<lparr> selections := selections na @
                             [nasel \<lparr> client := Some c,
                                      server := s,
                                      waiting := 0,
                                      wait := (case s of Some _ \<Rightarrow> None
                                               | None \<Rightarrow> Some (length (sems na))),
                                      clienttype := ct,
                                      servertype := st,
                                      mech := m,
                                      spnego := (flags AND USE_SPNEGO \<noteq> 0) \<rparr>],
                           sems := (case s of Some _ \<Rightarrow> sems na
                                    | None \<Rightarrow> sems na @ [0]) \<rparr>))))"

subsection \<open>The providers\<close>

type_synonym krb5_error_code = int

record krb5_principal =
  princ_realm :: string
  krb5_unparse_name :: "krb5_error_code \<times> string"

record cc_entry =
  cc_id :: krb5_ccache
  cc_get_principal :: "krb5_principal option"
  cc_get_config :: "string \<rightharpoonup> string"

datatype CFType =
  CFString string | CFArray "CFType list" | CFDictionary "(string \<times> CFType) list" | CFOther

datatype sec_oid =
  kSecOIDDescription | kSecOIDCommonName | kSecOIDOrganizationalUnitName | OtherSecOID string

record env =
  CFNetServiceDeconstructServiceName :: "string \<Rightarrow> string option"
  getlogin :: "string option"
  GSSEnable :: "bool option"
  UserSelections :: "CFType option"
  CFRuntimeCreateInstance :: "nat \<Rightarrow> bool"
  krb5_init_context :: bool
  hx509_context_init :: bool
  krb5_cccol :: "bool \<Rightarrow> cc_entry list option"
  krb5_principal_is_lkdc :: "krb5_principal \<Rightarrow> bool"
  krb5_get_host_realm :: "string \<Rightarrow> string list option"
  krb5_get_default_realms :: "string list option"
  SecCertificateCopyData :: "SecCertificateRef \<Rightarrow> string option"
  CC_SHA1 :: "string \<Rightarrow> string"
  CSCopyKerberosPrincipalForCertificate :: "SecCertificateRef \<Rightarrow> string option"
  hx509_cert_init_SecFramework :: "SecCertificateRef \<Rightarrow> krb5_error_code"
  hx509_cert_get_appleid :: "SecCertificateRef \<Rightarrow> string option"
  gss_iter_creds_NTLM :: "string list"
  LKDCDiscoverRealm :: "string \<Rightarrow> string option"
  CSCopyAppleIDAccountForAppleIDCertificate :: "SecCertificateRef \<Rightarrow> string option"
  SecCertificateCopyValues :: "SecCertificateRef \<Rightarrow> (sec_oid \<times> string) list option option"
  SecCertificateInferLabel :: "SecCertificateRef \<Rightarrow> string option"

text \<open>
  \<open>GSSEnable\<close> and \<open>UserSelections\<close> are the two keys of the preferences store;
  \<open>CFRuntimeCreateInstance n\<close> tells whether a selection instance can be allocated
  when the list holds \<open>n\<close> records; \<open>krb5_cccol only_lkdc\<close> is the sequence of caches
  the cursor yields in the pass with that flag (\<open>None\<close> when the cursor cannot be
  opened); \<open>gss_iter_creds_NTLM\<close> holds the display names of the NTLM credentials
  the provider iterates over. A boolean field is true when the call returns 0.
  \<open>SecCertificateCopyValues cert\<close> is \<open>None\<close> when no dictionary comes back,
  \<open>Some None\<close> when the subject name or its value array is missing, and otherwise
  the label and value of each property of the subject name.
\<close>

datatype error = NullDereference | Abort

definition nah_use_gss_uam :: "env \<Rightarrow> bool" where
  \<comment> \<open>the global set once in \<open>NAHCreate\<close>: the preference, true when the key is absent\<close>
  "nah_use_gss_uam e = (case GSSEnable e of None \<Rightarrow> True | Some b \<Rightarrow> b)"

definition kNAHServiceAFPServer :: string where
  "kNAHServiceAFPServer = ''afpserver''"

definition kNAHServiceCIFSServer :: string where
  "kNAHServiceCIFSServer = ''cifs''"

definition kNAHServiceHostServer :: string where
  "kNAHServiceHostServer = ''host''"

definition kNAHServiceVNCServer :: string where
  "kNAHServiceVNCServer = ''vnc''"

definition kWELLKNOWN_LKDC :: string where
  "kWELLKNOWN_LKDC = ''WELLKNOWN:COM.APPLE.LKDC''"

subsection \<open>The latch of a selection, on the session\<close>

definition sel_update ::
  "NAHSelectionRef \<Rightarrow> (NAHSelectionData \<Rightarrow> NAHSelectionData) \<Rightarrow> NAHData \<Rightarrow> NAHData" where
  \<comment> \<open>a write through a selection pointer\<close>
  "sel_update n f na = na \<lparr> selections := (selections na)[n := f (selections na ! n)] \<rparr>"

definition sem_signal :: "dispatch_semaphore_t \<Rightarrow> int \<Rightarrow> int list \<Rightarrow> int list" where
  \<comment> \<open>\<open>k\<close> calls of \<open>dispatch_semaphore_signal\<close> on one semaphore\<close>
  "sem_signal h k store = store[h := store ! h + k]"

definition signal_result :: "NAHData \<Rightarrow> NAHSelectionRef \<Rightarrow> NAHData" where
  "signal_result na n =
     (let s = selections na ! n in
      case wait s of
        None \<Rightarrow> na
      | Some h \<Rightarrow>
          (sel_update n (\<lambda>x. x \<lparr> waiting := (if waiting s > 0 then 0 else waiting s),
                                 wait := None \<rparr>) na)
            \<lparr> sems := sem_signal h (if waiting s > 0 then waiting s else 0) (sems na) \<rparr>)"

subsection \<open>Username, locality, classic LKDC\<close>

record NegTokenInit =
  kSPNEGONegTokenInitMechs :: "(mech_oid \<rightharpoonup> string) option"
  kSPNEGONegTokenInitHintsHostname :: "string option"

datatype certs_value =
  CertArray "SecCertificateRef list" | Certificate SecCertificateRef
  | Identity SecCertificateRef | UnknownType

record NAHInfo =
  kNAHUserName :: "string option"
  kNAHPassword :: "string option"
  kNAHNegTokenInit :: "NegTokenInit option"
  kNAHCertificates :: "certs_value option"

definition findUsername :: "env \<Rightarrow> NAHInfo option \<Rightarrow> (string \<times> string option) option" where
  \<comment> \<open>\<open>None\<close> for \<open>false\<close>; otherwise the username and the specific name\<close>
  "findUsername e info =
     (case (case info of None \<Rightarrow> None | Some i \<Rightarrow> kNAHUserName i) of
        Some u \<Rightarrow>
          (case CFStringFind u ''@'' of
             Some loc \<Rightarrow> Some (u, Some (CFStringCreateWithSubstring u 0 loc))
           | None \<Rightarrow>
               (case CFStringFind u backslash of
                  Some loc \<Rightarrow>
                    Some (u, Some (CFStringCreateWithSubstring u (loc + 1)
                                     (length u - (loc + 1))))
                | None \<Rightarrow> Some (u, Some u)))
      | None \<Rightarrow>
          (case getlogin e of None \<Rightarrow> None | Some name \<Rightarrow> Some (name, None)))"

definition printed :: "string option \<Rightarrow> string" where
  \<comment> \<open>what the format directive \<open>%@\<close> prints\<close>
  "printed x = (case x of None \<Rightarrow> ''(null)'' | Some str \<Rightarrow> str)"

definition classic_lkdc_background :: "env \<Rightarrow> NAHData \<Rightarrow> NAHSelectionRef \<Rightarrow> NAHData" where
  "classic_lkdc_background e na n =
     signal_result
       (case LKDCDiscoverRealm e (hostname na) of
          None \<Rightarrow> na
        | Some realm \<Rightarrow>
            sel_update n
              (\<lambda>nasel. nasel \<lparr> server := Some (service na @ ''/'' @ realm @ ''@'' @ realm),
                               client := Some (printed (client nasel) @ ''@'' @ realm) \<rparr>)
              na)
       n"

definition is_local_hostname :: "string \<Rightarrow> bool" where
  "is_local_hostname h =
     (if CFStringHasSuffix h ''.local'' then True
      else if CFStringHasSuffix h ''.members.mac.com'' then True
      else if CFStringHasSuffix h ''.members.me.com'' then True
      else False)"

definition hexdigit :: "nat \<Rightarrow> char" where
  "hexdigit d = ''0123456789ABCDEF'' ! d"

definition hex02X :: "char \<Rightarrow> string" where
  \<comment> \<open>\<open>sprintf(cp, "%02X", digest[m])\<close>\<close>
  "hex02X c = [hexdigit ((of_char c :: nat) div 16), hexdigit ((of_char c :: nat) mod 16)]"

definition dispatch_background :: "NAHSelectionRef \<Rightarrow> NAHData \<Rightarrow> NAHData" where
  \<comment> \<open>\<open>dispatch_async(na->bgq, ^{ classic_lkdc_background(nasel); ... })\<close>\<close>
  "dispatch_background n na = na \<lparr> bgq := bgq na @ [n] \<rparr>"

fun classic_lkdc_certs ::
  "env \<Rightarrow> 64 word \<Rightarrow> SecCertificateRef list \<Rightarrow> NAHData \<Rightarrow> NAHData" where
  "classic_lkdc_certs e flags [] na = na"
| "classic_lkdc_certs e flags (cert # rest) na =
     (case SecCertificateCopyData e cert of
        None \<Rightarrow> classic_lkdc_certs e flags rest na
      | Some certData \<Rightarrow>
          (case addSelection (CFRuntimeCreateInstance e (length (selections na))) na
                  (concat (map hex02X (CC_SHA1 e certData))) (Some kNAHNTKRB5Principal)
                  None (Some kNAHNTKRB5PrincipalReferral) GSS_KERBEROS (Some 0) flags of
             (nasel, duplicate, na') \<Rightarrow>
               (case nasel of
                  None \<Rightarrow> classic_lkdc_certs e flags rest na'
                | Some n \<Rightarrow>
                    if duplicate \<noteq> Some 0 then classic_lkdc_certs e flags rest na'
                    else classic_lkdc_certs e flags rest
                           (dispatch_background n
                              (sel_update n (\<lambda>x. x \<lparr> certificate := Some cert \<rparr>) na')))))"

definition classic_lkdc :: "env \<Rightarrow> NAHData \<Rightarrow> 64 word \<Rightarrow> NAHData" where
  "classic_lkdc e na flags =
     (if \<not> is_local_hostname (hostname na) then na
      else
        let na1 = classic_lkdc_certs e flags
                    (case x509identities na of None \<Rightarrow> [] | Some certs \<Rightarrow> certs) na
        in case password na1 of
             None \<Rightarrow> na1
           | Some pw \<Rightarrow>
               (case addSelection (CFRuntimeCreateInstance e (length (selections na1))) na1
                       (username na1) (Some kNAHNTKRB5Principal)
                       None (Some kNAHNTKRB5PrincipalReferral) GSS_KERBEROS (Some 0) flags of
                  (nasel, duplicate, na2) \<Rightarrow>
                    (case nasel of
                       None \<Rightarrow> na2
                     | Some n \<Rightarrow>
                         if duplicate = Some 0 then dispatch_background n na2 else na2)))"

subsection \<open>Classic Kerberos, existing caches, wellknown LKDC\<close>

fun add_realms :: "env \<Rightarrow> NAHData \<Rightarrow> string list \<Rightarrow> 64 word \<Rightarrow> NAHData" where
  "add_realms e na [] flags = na"
| "add_realms e na (r # realms) flags =
     add_realms e
       (snd (snd (addSelection (CFRuntimeCreateInstance e (length (selections na))) na
                    (username na @ ''@'' @ r) (Some kNAHNTKRB5Principal)
                    (Some (service na @ ''/'' @ hostname na @ ''@'' @ r))
                    (Some kNAHNTKRB5PrincipalReferral) GSS_KERBEROS None flags)))
       realms flags"

definition use_classic_kerberos :: "env \<Rightarrow> NAHData \<Rightarrow> 64 word \<Rightarrow> NAHData" where
  "use_classic_kerberos e na flags =
     (if is_local_hostname (hostname na) then na
      else
        let na1 =
              (case CFStringFind (username na) ''@'' of
                 None \<Rightarrow> na
               | Some loc \<Rightarrow>
                   (let domain = CFStringCreateWithSubstring (username na) (loc + 1)
                                   (length (username na) - (loc + 1));
                        domainm = CFStringUppercase domain;
                        s = service na @ ''/'' @ hostname na @ ''@'' @ domainm
                    in snd (snd (addSelection
                                   (CFRuntimeCreateInstance e (length (selections na))) na
                                   (username na) (Some kNAHNTKRB5Principal)
                                   (Some s) (Some kNAHNTKRB5PrincipalReferral)
                                   GSS_KERBEROS None flags))));
            na2 =
              (case CFStringFind (username na1) backslash of
                 None \<Rightarrow> na1
               | Some loc \<Rightarrow>
                   (let user = CFStringCreateWithSubstring (username na1) (loc + 1)
                                 (length (username na1) - (loc + 1));
                        domain = CFStringCreateWithSubstring (username na1) 0 loc;
                        domainm = CFStringUppercase domain;
                        user2 = user @ ''@'' @ domain;
                        s = service na1 @ ''/'' @ hostname na1 @ ''@'' @ domainm
                    in snd (snd (addSelection
                                   (CFRuntimeCreateInstance e (length (selections na1))) na1
                                   user2 (Some kNAHNTKRB5Principal)
                                   (Some s) (Some kNAHNTKRB5PrincipalReferral)
                                   GSS_KERBEROS None (flags OR FORCE_ADD)))));
            na3 =
              (case krb5_get_host_realm e (hostname na2) of
                 None \<Rightarrow> na2
               | Some realms \<Rightarrow> add_realms e na2 realms flags)
        in case krb5_get_default_realms e of
             None \<Rightarrow> na3
           | Some realms \<Rightarrow> add_realms e na3 realms flags)"

definition bind_cache :: "cc_entry \<Rightarrow> NAHSelectionData \<Rightarrow> NAHSelectionData" where
  \<comment> \<open>the writes made when the returned selection has no cache yet\<close>
  "bind_cache cc nasel =
     nasel \<lparr> ccache := Some (cc_id cc),
             have_cred := True,
             inferredLabel :=
               (case inferredLabel nasel of
                  None \<Rightarrow> cc_get_config cc ''FriendlyName''
                | Some l \<Rightarrow> Some l) \<rparr>"

definition add_existing ::
  "env \<Rightarrow> NAHData \<Rightarrow> cc_entry \<Rightarrow> string \<Rightarrow> string \<Rightarrow> 64 word \<Rightarrow> NAHData" where
  \<comment> \<open>the end of the loop body of \<open>use_existing_principals\<close>, from the call of
      \<open>addSelection\<close> on\<close>
  "add_existing e na cc u srv flags =
     (case addSelection (CFRuntimeCreateInstance e (length (selections na))) na
             u (Some kNAHNTKRB5Principal) (Some srv) (Some kNAHNTKRB5PrincipalReferral)
             GSS_KERBEROS None flags of
        (nasel, duplicate, na') \<Rightarrow>
          (case nasel of
             None \<Rightarrow> na'
           | Some n \<Rightarrow>
               if ccache (selections na' ! n) = None then sel_update n (bind_cache cc) na'
               else na'))"

fun use_existing_loop ::
  "env \<Rightarrow> bool \<Rightarrow> 64 word \<Rightarrow> cc_entry list \<Rightarrow> NAHData \<Rightarrow> NAHData" where
  "use_existing_loop e only_lkdc flags [] na = na"
| "use_existing_loop e only_lkdc flags (cc # rest) na =
     (case cc_get_principal cc of
        None \<Rightarrow> use_existing_loop e only_lkdc flags rest na
      | Some cl \<Rightarrow>
          (let is_lkdc = krb5_principal_is_lkdc e cl in
           if (only_lkdc \<and> \<not> is_lkdc) \<or> (\<not> only_lkdc \<and> is_lkdc)
           then use_existing_loop e only_lkdc flags rest na
           else
             (case krb5_unparse_name cl of
                (ret, u) \<Rightarrow>
                  if ret \<noteq> 0 then use_existing_loop e only_lkdc flags rest na
                  else if is_lkdc then
                    (case cc_get_config cc ''lkdc-hostname'' of
                       None \<Rightarrow> use_existing_loop e only_lkdc flags rest na
                     | Some cr \<Rightarrow>
                         if hostname na \<noteq> cr
                         then use_existing_loop e only_lkdc flags rest na
                         else use_existing_loop e only_lkdc flags rest
                                (add_existing e na cc u
                                   (service na @ ''/'' @ princ_realm cl @ ''@'' @ princ_realm cl)
                                   flags))
                  else use_existing_loop e only_lkdc flags rest
                         (add_existing e na cc u
                            (service na @ ''/'' @ hostname na @ ''@'' @ princ_realm cl)
                            flags))))"

definition use_existing_principals :: "env \<Rightarrow> NAHData \<Rightarrow> bool \<Rightarrow> 64 word \<Rightarrow> NAHData" where
  "use_existing_principals e na only_lkdc flags =
     (case krb5_cccol e only_lkdc of
        None \<Rightarrow> na
      | Some caches \<Rightarrow> use_existing_loop e only_lkdc flags caches na)"

fun wellknown_lkdc_certs ::
  "env \<Rightarrow> NAHMechType \<Rightarrow> 64 word \<Rightarrow> string \<Rightarrow> SecCertificateRef list \<Rightarrow> NAHData \<Rightarrow> NAHData"
  where
  "wellknown_lkdc_certs e mechtype flags s [] na = na"
| "wellknown_lkdc_certs e mechtype flags s (cert # rest) na =
     (case (case CSCopyKerberosPrincipalForCertificate e cert of
              Some csstr \<Rightarrow> Some (csstr @ ''@'' @ kWELLKNOWN_LKDC)
            | None \<Rightarrow>
                if hx509_cert_init_SecFramework e cert \<noteq> 0 then None
                else (case hx509_cert_get_appleid e cert of
                        None \<Rightarrow> None
                      | Some str \<Rightarrow> Some (str @ ''@'' @ kWELLKNOWN_LKDC))) of
        None \<Rightarrow> wellknown_lkdc_certs e mechtype flags s rest na
      | Some u \<Rightarrow>
          (case addSelection (CFRuntimeCreateInstance e (length (selections na))) na
                  u (Some kNAHNTKRB5Principal) (Some s) (Some kNAHNTKRB5PrincipalReferral)
                  mechtype None flags of
             (nasel, duplicate, na') \<Rightarrow>
               wellknown_lkdc_certs e mechtype flags s rest
                 (case nasel of
                    None \<Rightarrow> na'
                  | Some n \<Rightarrow> sel_update n (\<lambda>x. x \<lparr> certificate := Some cert \<rparr>) na')))"

definition wellknown_lkdc :: "env \<Rightarrow> NAHData \<Rightarrow> NAHMechType \<Rightarrow> 64 word \<Rightarrow> NAHData" where
  "wellknown_lkdc e na mechtype flags =
     (let u = username na @ ''@'' @ kWELLKNOWN_LKDC;
          s = service na @ ''/localhost@'' @ kWELLKNOWN_LKDC;
          na1 = (case password na of
                   None \<Rightarrow> na
                 | Some pw \<Rightarrow>
                     snd (snd (addSelection
                                 (CFRuntimeCreateInstance e (length (selections na))) na
                                 u (Some kNAHNTKRB5Principal) (Some s)
                                 (Some kNAHNTKRB5Principal) mechtype None flags)))
      in wellknown_lkdc_certs e mechtype flags s
           (case x509identities na1 of None \<Rightarrow> [] | Some certs \<Rightarrow> certs) na1)"

definition is_smb :: "NAHData \<Rightarrow> bool" where
  "is_smb na =
     (if service na = kNAHServiceHostServer \<or> service na = kNAHServiceCIFSServer
      then True else False)"

subsection \<open>The Kerberos and the NTLM guesser\<close>

definition try_iakerb_with_lkdc :: "env \<Rightarrow> NAHData \<Rightarrow> bool" where
  "try_iakerb_with_lkdc e na \<longleftrightarrow>
     nah_use_gss_uam e \<and> password na \<noteq> None \<and> haveMech na kGSSAPIMechIAKERB
     \<and> haveMech na kGSSAPIMechSupportsAppleLKDC \<and> \<not> is_smb na"

definition try_wlkdc :: "env \<Rightarrow> NAHData \<Rightarrow> bool" where
  "try_wlkdc e na \<longleftrightarrow>
     (if try_iakerb_with_lkdc e na then False
      else if haveMech na kGSSAPIMechPKU2UOID \<or> haveMech na kGSSAPIMechSupportsAppleLKDC
        then True
      else if service na = kNAHServiceVNCServer then True
      else False)"

definition try_lkdc_classic :: "NAHData \<Rightarrow> bool" where
  "try_lkdc_classic na \<longleftrightarrow>
     (if haveMech na kGSSAPIMechPKU2UOID \<or> haveMech na kGSSAPIMechSupportsAppleLKDC
      then False
      else (case spnegoServerName na of
              None \<Rightarrow> True
            | Some nm \<Rightarrow> (case CFStringFind nm ''@LKDC'' of None \<Rightarrow> False | Some loc \<Rightarrow> True)))"

definition kerberos_flags :: "NAHData \<Rightarrow> 64 word" where
  "kerberos_flags na =
     (if service na = kNAHServiceAFPServer \<and> \<not> haveMech na kGSSAPIMechSupportsAppleLKDC
      then USE_SPNEGO AND NOT USE_SPNEGO else USE_SPNEGO)"

definition have_kerberos :: "NAHData \<Rightarrow> bool" where
  "have_kerberos na \<longleftrightarrow>
     servermechs na = None \<or> haveMech na kGSSAPIMechIAKERB
     \<or> haveMech na kGSSAPIMechKerberosOID \<or> haveMech na kGSSAPIMechKerberosMicrosoftOID
     \<or> haveMech na kGSSAPIMechPKU2UOID"

definition guess_kerberos :: "env \<Rightarrow> NAHData \<Rightarrow> NAHData" where
  "guess_kerberos e na =
     (let flags = kerberos_flags na in
      if \<not> have_kerberos na then na
      else if \<not> krb5_init_context e then na
      else if \<not> hx509_context_init e then na \<lparr> krb_context := True \<rparr>
      else
        let na0 = na \<lparr> krb_context := True, hxctx := True \<rparr>;
            na1 = use_existing_principals e na0 True flags;
            na2 = (if try_iakerb_with_lkdc e na
                   then wellknown_lkdc e na1 GSS_KERBEROS_IAKERB flags else na1);
            na3 = (if try_wlkdc e na then wellknown_lkdc e na2 GSS_KERBEROS flags else na2);
            na4 = (case password na3 of
                     None \<Rightarrow> na3
                   | Some pw \<Rightarrow> use_classic_kerberos e na3 flags);
            na5 = (if try_lkdc_classic na then classic_lkdc e na4 flags else na4)
        in use_existing_principals e na5 False flags)"

fun guess_ntlm_creds :: "env \<Rightarrow> string \<Rightarrow> 64 word \<Rightarrow> string list \<Rightarrow> NAHData \<Rightarrow> NAHData" where
  \<comment> \<open>the block passed to \<open>gss_iter_creds\<close>, once per credential\<close>
  "guess_ntlm_creds e s flags [] na = na"
| "guess_ntlm_creds e s flags (u # rest) na =
     (case addSelection (CFRuntimeCreateInstance e (length (selections na))) na
             u (Some kNAHNTUsername) (Some s) None GSS_NTLM None flags of
        (nasel, duplicate, na') \<Rightarrow>
          guess_ntlm_creds e s flags rest
            (case nasel of
               None \<Rightarrow> na'
             | Some n \<Rightarrow> sel_update n (\<lambda>x. x \<lparr> have_cred := True \<rparr>) na'))"

definition guess_ntlm :: "env \<Rightarrow> NAHData \<Rightarrow> NAHData" where
  "guess_ntlm e na =
     (if \<not> haveMech na kGSSAPIMechNTLMOID then na
      else
        let flags =
              (case servermechs na of
                 None \<Rightarrow> USE_SPNEGO
               | Some d \<Rightarrow>
                   (case d kGSSAPIMechNTLMOID of
                      None \<Rightarrow> USE_SPNEGO
                    | Some data \<Rightarrow>
                        if length data = 3 \<and> data = ''raw''
                        then USE_SPNEGO AND NOT USE_SPNEGO else USE_SPNEGO));
            s = service na @ ''@'' @ hostname na;
            na2 =
              (case password na of
                 None \<Rightarrow> na
               | Some pw \<Rightarrow>
                   (let (u, flags2) =
                          (case CFStringFind (username na) ''@'' of
                             Some loc \<Rightarrow> (username na, FORCE_ADD)
                           | None \<Rightarrow>
                               (case CFStringFind (username na) backslash of
                                  Some loc \<Rightarrow>
                                    (CFStringCreateWithSubstring (username na) (loc + 1)
                                       (length (username na) - (loc + 1))
                                     @ ''@'' @ CFStringCreateWithSubstring (username na) 0 loc,
                                     FORCE_ADD)
                                | None \<Rightarrow>
                                    (username na @ ''@'' @ backslash @ hostname na, 0)));
                        na1 = snd (snd (addSelection
                                 (CFRuntimeCreateInstance e (length (selections na))) na
                                 u (Some kNAHNTUsername) (Some s) None GSS_NTLM None
                                 (flags OR flags2)))
                    in case specificname na1 of
                         None \<Rightarrow> na1
                       | Some sn \<Rightarrow>
                           snd (snd (addSelection
                                 (CFRuntimeCreateInstance e (length (selections na1))) na1
                                 (sn @ ''@'' @ backslash @ hostname na1) (Some kNAHNTUsername)
                                 (Some s) None GSS_NTLM None flags))))
        in guess_ntlm_creds e s flags (gss_iter_creds_NTLM e) na2)"

subsection \<open>User selections and NAHCreate\<close>

definition kDomainKey :: string where
  "kDomainKey = ''domain''"

definition kUsername :: string where
  "kUsername = ''user''"

definition kMech :: string where
  "kMech = ''mech''"

definition kClient :: string where
  "kClient = ''client''"

definition CFDictionaryGetValue :: "(string \<times> CFType) list \<Rightarrow> string \<Rightarrow> CFType option" where
  "CFDictionaryGetValue d k = map_of d k"

definition user_selection :: "env \<Rightarrow> NAHData \<Rightarrow> CFType \<Rightarrow> error + NAHData" where
  \<comment> \<open>one round of the loop of \<open>add_user_selections\<close>. With no \<open>user\<close> in the entry
      the test \<open>u == NULL && CFGetTypeID(u) != ...\<close> calls \<open>CFGetTypeID(NULL)\<close>, which
      reads through the null pointer; with a \<open>user\<close> the test is false and the later
      \<open>if (u == NULL)\<close> is skipped. The flags argument is the constant \<open>true\<close>.\<close>
  "user_selection e na dict =
     (case dict of
        CFDictionary kv \<Rightarrow>
          (case CFDictionaryGetValue kv kClient of
             Some (CFString c) \<Rightarrow>
               (case CFDictionaryGetValue kv kMech of
                  Some (CFString m) \<Rightarrow>
                    (case CFDictionaryGetValue kv kDomainKey of
                       Some (CFString d) \<Rightarrow>
                         (case CFDictionaryGetValue kv kUsername of
                            None \<Rightarrow> Inl NullDereference
                          | Some u \<Rightarrow>
                              if \<not> CFStringEqualCaseInsensitive d (hostname na) then Inr na
                              else if name2mech (Some m) = NO_MECH then Inr na
                              else
                                Inr (snd (snd (addSelection
                                       (CFRuntimeCreateInstance e (length (selections na))) na
                                       c None (Some (service na @ ''@'' @ hostname na)) None
                                       (name2mech (Some m)) None 1))))
                     | _ \<Rightarrow> Inr na)
                | _ \<Rightarrow> Inr na)
           | _ \<Rightarrow> Inr na)
      | _ \<Rightarrow> Inr na)"

fun user_selections_loop :: "env \<Rightarrow> CFType list \<Rightarrow> NAHData \<Rightarrow> error + NAHData" where
  "user_selections_loop e [] na = Inr na"
| "user_selections_loop e (dict # rest) na =
     (case user_selection e na dict of
        Inl err \<Rightarrow> Inl err
      | Inr na' \<Rightarrow> user_selections_loop e rest na')"

definition add_user_selections :: "env \<Rightarrow> NAHData \<Rightarrow> error + NAHData" where
  "add_user_selections e na =
     (case UserSelections e of
        Some (CFArray array) \<Rightarrow> user_selections_loop e array na
      | _ \<Rightarrow> Inr na)"

definition NAHCreate_session :: "env \<Rightarrow> string \<Rightarrow> string \<Rightarrow> NAHInfo option \<Rightarrow> NAHData option" where
  \<comment> \<open>\<open>NAHCreate\<close> up to the comment \<open>here starts the guessing game\<close>\<close>
  "NAHCreate_session e h svc info =
     (let canonname = (case CFNetServiceDeconstructServiceName e h of
                         Some hostnamestr \<Rightarrow> hostnamestr | None \<Rightarrow> h)
      in case findUsername e info of
           None \<Rightarrow> None
         | Some (user, specific) \<Rightarrow>
             Some \<lparr> hostname = CFStringTrim canonname CHR ''.'',
                    service = svc,
                    username = user,
                    specificname = specific,
                    servermechs =
                      (case info of None \<Rightarrow> None
                       | Some i \<Rightarrow> (case kNAHNegTokenInit i of None \<Rightarrow> None
                                    | Some nti \<Rightarrow> kSPNEGONegTokenInitMechs nti)),
                    spnegoServerName =
                      (case info of None \<Rightarrow> None
                       | Some i \<Rightarrow> (case kNAHNegTokenInit i of None \<Rightarrow> None
                                    | Some nti \<Rightarrow> kSPNEGONegTokenInitHintsHostname nti)),
                    x509identities =
                      (case info of None \<Rightarrow> None
                       | Some i \<Rightarrow> (case kNAHCertificates i of None \<Rightarrow> None
                                    | Some (CertArray certs) \<Rightarrow> Some certs
                                    | Some (Certificate cert) \<Rightarrow> Some [cert]
                                    | Some (Identity cert) \<Rightarrow> Some [cert]
                                    | Some UnknownType \<Rightarrow> None)),
                    password = (case info of None \<Rightarrow> None | Some i \<Rightarrow> kNAHPassword i),
                    krb_context = False,
                    hxctx = False,
                    selections = [],
                    sems = [],
                    bgq = [] \<rparr>)"

definition guessing_game :: "env \<Rightarrow> NAHData \<Rightarrow> error + NAHData" where
  \<comment> \<open>the three calls that end \<open>NAHCreate\<close>\<close>
  "guessing_game e na =
     (case add_user_selections e na of
        Inl err \<Rightarrow> Inl err
      | Inr na1 \<Rightarrow>
          (let na2 = guess_kerberos e na1
           in Inr (if x509identities na2 = None \<and> is_smb na2 then guess_ntlm e na2 else na2)))"

definition NAHCreate :: "env \<Rightarrow> string \<Rightarrow> string \<Rightarrow> NAHInfo option \<Rightarrow> error + NAHData option" where
  "NAHCreate e h svc info =
     (case NAHCreate_session e h svc info of
        None \<Rightarrow> Inr None
      | Some na \<Rightarrow>
          (case guessing_game e na of Inl err \<Rightarrow> Inl err | Inr na' \<Rightarrow> Inr (Some na')))"

subsection \<open>Reference key\<close>

definition NAHCopyReferenceKey :: "NAHSelectionData \<Rightarrow> string option" where
  "NAHCopyReferenceKey selection =
     (case client selection of
        None \<Rightarrow> None
      | Some c \<Rightarrow>
          (case mech selection of
             GSS_KERBEROS \<Rightarrow> Some (''krb5'' @ '':'' @ c)
           | GSS_KERBEROS_PKU2U \<Rightarrow> Some (''krb5'' @ '':'' @ c)
           | GSS_KERBEROS_IAKERB \<Rightarrow> Some (''krb5'' @ '':'' @ c)
           | GSS_NTLM \<Rightarrow> Some (''ntlm'' @ '':'' @ c)
           | _ \<Rightarrow> None))"

subsection \<open>Kerberos acquisition\<close>

record kdc =
  krb5_parse_name_flags :: "string \<Rightarrow> bool \<Rightarrow> krb5_error_code \<times> krb5_principal"
  krb5_get_init_creds_opt_alloc :: krb5_error_code
  krb5_get_init_creds_opt_set_pkinit :: krb5_error_code
  krb5_init_creds_init :: krb5_error_code
  krb5_init_creds_set_pkinit_client_cert :: krb5_error_code
  krb5_init_creds_set_password :: krb5_error_code
  krb5_init_creds_get :: krb5_error_code
  krb5_init_creds_get_creds :: "krb5_error_code \<times> krb5_principal"
  krb5_cc_cache_match :: krb5_error_code
  krb5_cc_new_unique :: krb5_error_code
  krb5_cc_initialize :: krb5_error_code
  krb5_cc_store_cred :: krb5_error_code
  krb5_init_creds_store_config :: krb5_error_code
  krb5_realm_is_lkdc :: "string \<Rightarrow> bool"

text \<open>
  One field for each call of the exchange: its return code, and the principal it
  yields where it yields one (\<open>krb5_init_creds_get_creds\<close> gives \<open>cred.client\<close>).
  The credential cache itself belongs to the provider and is not part of the
  session.
\<close>

definition searchArray :: "(sec_oid \<times> string) list \<Rightarrow> sec_oid \<Rightarrow> string option" where
  "searchArray array key = map_of array key"

definition setFriendlyName ::
  "env \<Rightarrow> NAHData \<Rightarrow> NAHSelectionRef \<Rightarrow> SecCertificateRef option \<Rightarrow> bool \<Rightarrow> NAHData" where
  "setFriendlyName e na n cert is_lkdc =
     (let set_label = (\<lambda>l. sel_update n (\<lambda>x. x \<lparr> inferredLabel := Some l \<rparr>) na);
          infer = (\<lambda>c. case SecCertificateInferLabel e c of
                          None \<Rightarrow> na | Some l \<Rightarrow> set_label l)
      in case cert of
           Some c \<Rightarrow>
             (case CSCopyAppleIDAccountForAppleIDCertificate e c of
                Some l \<Rightarrow> set_label l
              | None \<Rightarrow>
                  (case SecCertificateCopyValues e c of
                     None \<Rightarrow> na
                   | Some None \<Rightarrow> infer c
                   | Some (Some val) \<Rightarrow>
                       (case searchArray val kSecOIDDescription of
                          None \<Rightarrow> infer c
                        | Some description \<Rightarrow>
                            if description = ''.Mac Sharing Certificate''
                               \<or> description = ''MobileMe Sharing Certificate''
                            then
                              (case searchArray val kSecOIDCommonName of
                                 None \<Rightarrow> infer c
                               | Some commonName \<Rightarrow>
                                   (case searchArray val kSecOIDOrganizationalUnitName of
                                      None \<Rightarrow> infer c
                                    | Some organizationalUnit \<Rightarrow>
                                        set_label (commonName @ ''@'' @ organizationalUnit)))
                            else infer c)))
         | None \<Rightarrow>
             if specificname na \<noteq> None \<or> is_lkdc then set_label (username na)
             else (case client (selections na ! n) of
                     None \<Rightarrow> na | Some cl \<Rightarrow> set_label cl))"

definition enterprise_name :: "string \<Rightarrow> bool" where
  \<comment> \<open>a second \<open>@\<close> after the first one\<close>
  "enterprise_name str =
     (case CFStringFind str ''@'' of
        None \<Rightarrow> False
      | Some p \<Rightarrow> (case CFStringFind (drop (p + 1) str) ''@'' of
                    None \<Rightarrow> False | Some q \<Rightarrow> True))"

definition referral_update ::
  "NAHData \<Rightarrow> NAHSelectionRef \<Rightarrow> string \<Rightarrow> string \<Rightarrow> bool \<Rightarrow> NAHData" where
  \<comment> \<open>the block \<open>the KDC might have done referrals games\<close>, after \<open>newclient\<close> is made\<close>
  "referral_update na n newclient realm is_lkdc =
     (if Some newclient \<noteq> client (selections na ! n) then
        sel_update n
          (\<lambda>x. x \<lparr> client := Some newclient,
                   server := Some (if is_lkdc then service na @ ''/'' @ realm @ ''@'' @ realm
                                   else service na @ ''/'' @ hostname na @ ''@'' @ realm) \<rparr>)
          na
      else na)"

definition acquire_kerberos ::
  "env \<Rightarrow> kdc \<Rightarrow> NAHData \<Rightarrow> NAHSelectionRef \<Rightarrow> string option \<Rightarrow> SecCertificateRef option
     \<Rightarrow> error + krb5_error_code \<times> NAHData" where
  "acquire_kerberos e k na n pw cert =
     (case client (selections na ! n) of
        None \<Rightarrow> Inl NullDereference
      | Some str \<Rightarrow>
          (case krb5_parse_name_flags k str (enterprise_name str) of
             (ret, cl) \<Rightarrow>
               if ret \<noteq> 0 then Inr (ret, na)
               else if krb5_get_init_creds_opt_alloc k \<noteq> 0
                 then Inr (krb5_get_init_creds_opt_alloc k, na)
               else if cert \<noteq> None \<and> krb5_get_init_creds_opt_set_pkinit k \<noteq> 0
                 then Inr (krb5_get_init_creds_opt_set_pkinit k, na)
               else if krb5_init_creds_init k \<noteq> 0 then Inr (krb5_init_creds_init k, na)
               else
                 (case (case cert of
                          Some c \<Rightarrow>
                            if hx509_cert_init_SecFramework e c \<noteq> 0
                            then Inr (hx509_cert_init_SecFramework e c)
                            else Inr (krb5_init_creds_set_pkinit_client_cert k)
                        | None \<Rightarrow>
                            (case pw of
                               Some p \<Rightarrow> Inr (krb5_init_creds_set_password k)
                             | None \<Rightarrow> Inl Abort)) of
                    Inl err \<Rightarrow> Inl err
                  | Inr ret1 \<Rightarrow>
                      if ret1 \<noteq> 0 then Inr (ret1, na)
                      else if krb5_init_creds_get k \<noteq> 0 then Inr (krb5_init_creds_get k, na)
                      else
                        (case krb5_init_creds_get_creds k of
                           (ret2, cred_client) \<Rightarrow>
                             if ret2 \<noteq> 0 then Inr (ret2, na)
                             else if krb5_cc_cache_match k \<noteq> 0 \<and> krb5_cc_new_unique k \<noteq> 0
                               then Inr (krb5_cc_new_unique k, na)
                             else if krb5_cc_initialize k \<noteq> 0
                               then Inr (krb5_cc_initialize k, na)
                             else if krb5_cc_store_cred k \<noteq> 0
                               then Inr (krb5_cc_store_cred k, na)
                             else if krb5_init_creds_store_config k \<noteq> 0
                               then Inr (krb5_init_creds_store_config k, na)
                             else
                               (case krb5_unparse_name cred_client of
                                  (ret3, newclient) \<Rightarrow>
                                    if ret3 \<noteq> 0 then Inr (ret3, na)
                                    else
                                      Inr (0,
                                        setFriendlyName e
                                          (referral_update na n newclient
                                             (princ_realm cred_client)
                                             (krb5_realm_is_lkdc k (princ_realm cred_client)))
                                          n cert
                                          (krb5_realm_is_lkdc k (princ_realm cred_client))))))))"

subsection \<open>The completion latch: waiters, the resolver's signal, cancellation\<close>

definition wait_enter :: "NAHData \<Rightarrow> NAHSelectionRef \<Rightarrow> dispatch_semaphore_t option \<times> NAHData" where
  \<comment> \<open>the block \<open>wait_result\<close> runs on the serial queue; the result is \<open>sema\<close>\<close>
  "wait_enter na n =
     (let s = selections na ! n in
      if canceled s then (None, na)
      else (case wait s of
              None \<Rightarrow> (None, na)
            | Some h \<Rightarrow> (Some h, sel_update n (\<lambda>x. x \<lparr> waiting := waiting x + 1 \<rparr>) na)))"

definition dispatch_semaphore_wait :: "dispatch_semaphore_t \<Rightarrow> int list \<Rightarrow> int list option" where
  \<comment> \<open>\<open>None\<close> while the caller stays blocked\<close>
  "dispatch_semaphore_wait h store =
     (if h < length store \<and> store ! h > 0 then Some (store[h := store ! h - 1]) else None)"

definition wait_return :: "NAHData \<Rightarrow> NAHSelectionRef \<Rightarrow> bool" where
  \<comment> \<open>the end of \<open>wait_result\<close>: \<open>if (s->canceled) return false; return true;\<close>\<close>
  "wait_return na n = (if canceled (selections na ! n) then False else True)"

definition cancel_selection :: "NAHData \<Rightarrow> NAHSelectionRef \<Rightarrow> error + NAHData" where
  \<comment> \<open>one round of the loop of \<open>NAHCancel\<close>; signalling through a null \<open>s->wait\<close> fails\<close>
  "cancel_selection na n =
     (let s = selections na ! n in
      if waiting s > 0 then
        (case wait s of
           None \<Rightarrow> Inl NullDereference
         | Some h \<Rightarrow>
             Inr ((sel_update n (\<lambda>x. x \<lparr> canceled := True, waiting := 0 \<rparr>) na)
                    \<lparr> sems := sem_signal h (waiting s) (sems na) \<rparr>))
      else Inr (sel_update n (\<lambda>x. x \<lparr> canceled := True \<rparr>) na))"

fun cancel_loop :: "NAHSelectionRef list \<Rightarrow> NAHData \<Rightarrow> error + NAHData" where
  "cancel_loop [] na = Inr na"
| "cancel_loop (n # ns) na =
     (case cancel_selection na n of
        Inl err \<Rightarrow> Inl err
      | Inr na' \<Rightarrow> cancel_loop ns na')"

definition NAHCancel :: "NAHData \<Rightarrow> error + NAHData" where
  "NAHCancel na = cancel_loop [0 ..< length (selections na)] na"

datatype wait_pc = Blocked dispatch_semaphore_t | Woken | Returned bool

record waiter =
  on_selection :: NAHSelectionRef
  pc :: wait_pc

record system =
  session :: NAHData
  waiters :: "waiter list"

datatype event =
  Wait_enter NAHSelectionRef | Wait_wake nat | Wait_return nat
  | Signal NAHSelectionRef | Cancel

text \<open>
  A caller of \<open>wait_result\<close> is a waiter: it runs the queued block (\<open>Wait_enter\<close>),
  stays \<open>Blocked\<close> on the semaphore it read until the semaphore lets it through
  (\<open>Wait_wake\<close>), and then reads \<open>canceled\<close> and returns (\<open>Wait_return\<close>). The
  blocks that \<open>signal_result\<close> and \<open>NAHCancel\<close> run on the serial queue are atomic
  steps. \<open>step\<close> is \<open>None\<close> when the event cannot happen in the state.
\<close>

definition step :: "system \<Rightarrow> event \<Rightarrow> system option" where
  "step sys ev =
     (case ev of
        Wait_enter n \<Rightarrow>
          if n < length (selections (session sys)) then
            (case wait_enter (session sys) n of
               (sema, na') \<Rightarrow>
                 Some (sys \<lparr> session := na',
                             waiters := waiters sys @
                               [\<lparr> on_selection = n,
                                  pc = (case sema of None \<Rightarrow> Woken | Some h \<Rightarrow> Blocked h) \<rparr>] \<rparr>))
          else None
      | Wait_wake t \<Rightarrow>
          if t < length (waiters sys) then
            (case pc (waiters sys ! t) of
               Blocked h \<Rightarrow>
                 (case dispatch_semaphore_wait h (sems (session sys)) of
                    None \<Rightarrow> None
                  | Some store \<Rightarrow>
                      Some (sys \<lparr> session := (session sys) \<lparr> sems := store \<rparr>,
                                  waiters := (waiters sys)[t := (waiters sys ! t) \<lparr> pc := Woken \<rparr>] \<rparr>))
             | _ \<Rightarrow> None)
          else None
      | Wait_return t \<Rightarrow>
          if t < length (waiters sys) then
            (case pc (waiters sys ! t) of
               Woken \<Rightarrow>
                 Some (sys \<lparr> waiters := (waiters sys)[t := (waiters sys ! t)
                         \<lparr> pc := Returned (wait_return (session sys)
                                             (on_selection (waiters sys ! t))) \<rparr>] \<rparr>)
             | _ \<Rightarrow> None)
          else None
      | Signal n \<Rightarrow>
          if n < length (selections (session sys))
          then Some (sys \<lparr> session := signal_result (session sys) n \<rparr>)
          else None
      | Cancel \<Rightarrow>
          (case NAHCancel (session sys) of
             Inl err \<Rightarrow> None
           | Inr na' \<Rightarrow> Some (sys \<lparr> session := na' \<rparr>)))"

fun run :: "system \<Rightarrow> event list \<Rightarrow> system option" where
  "run sys [] = Some sys"
| "run sys (ev # evs) = (case step sys ev of None \<Rightarrow> None | Some sys' \<Rightarrow> run sys' evs)"

section \<open>Vocabulary of the properties\<close>

text \<open>
  \<open>is_dup\<close> is the test of the duplicate scan, and \<open>same_key\<close> the same test
  between two records of the list; \<open>unique_keys\<close> says that no two records of a
  list pass it. \<open>new_selection\<close> is the record \<open>addSelection\<close> appends and
  \<open>appended\<close> the session after the append. \<open>evolves P Q na na'\<close> says that
  \<open>na'\<close> comes from \<open>na\<close> by calls of \<open>addSelection\<close> with a mechanism in
  \<open>P\<close> and a server in \<open>Q\<close>, by writes of the fields outside the key and the
  latch to records with a mechanism in \<open>P\<close>, and by queueing background blocks.
\<close>

definition is_dup :: "NAHSelectionData \<Rightarrow> NAHMechType \<Rightarrow> string \<Rightarrow> string option \<Rightarrow> string \<Rightarrow> bool" where
  "is_dup nasel m c s st \<longleftrightarrow>
     mech nasel = m \<and> client nasel = Some c
     \<and> (server nasel \<noteq> None \<and> s \<noteq> None \<longrightarrow> server nasel = s)
     \<and> servertype nasel = st"

definition same_key :: "NAHSelectionData \<Rightarrow> NAHSelectionData \<Rightarrow> bool" where
  "same_key a b \<longleftrightarrow>
     mech a = mech b \<and> client a = client b
     \<and> (server a \<noteq> None \<and> server b \<noteq> None \<longrightarrow> server a = server b)
     \<and> servertype a = servertype b"

fun unique_keys :: "NAHSelectionData list \<Rightarrow> bool" where
  "unique_keys [] = True"
| "unique_keys (x # xs) = ((\<forall>y \<in> set xs. \<not> same_key x y) \<and> unique_keys xs)"

definition default_type :: "string \<Rightarrow> string option \<Rightarrow> string" where
  "default_type d t = (case t of None \<Rightarrow> d | Some x \<Rightarrow> x)"

definition new_selection ::
  "NAHData \<Rightarrow> string \<Rightarrow> string option \<Rightarrow> string option \<Rightarrow> string option \<Rightarrow> NAHMechType
     \<Rightarrow> 64 word \<Rightarrow> NAHSelectionData" where
  "new_selection na c ct s st m flags =
     \<lparr> wait = (case s of Some _ \<Rightarrow> None | None \<Rightarrow> Some (length (sems na))),
       waiting = 0, have_cred = False, canceled = False, mech = m, client = Some c,
       clienttype = default_type kNAHNTUsername ct, server = s,
       servertype = default_type kNAHNTServiceBasedName st, certificate = None,
       spnego = (flags AND USE_SPNEGO \<noteq> 0), inferredLabel = None, ccache = None \<rparr>"

definition appended ::
  "NAHData \<Rightarrow> string \<Rightarrow> string option \<Rightarrow> string option \<Rightarrow> string option \<Rightarrow> NAHMechType
     \<Rightarrow> 64 word \<Rightarrow> NAHData" where
  "appended na c ct s st m flags =
     na \<lparr> selections := selections na @ [new_selection na c ct s st m flags],
          sems := (case s of Some _ \<Rightarrow> sems na | None \<Rightarrow> sems na @ [0]) \<rparr>"

definition keeps_key :: "(NAHSelectionData \<Rightarrow> NAHSelectionData) \<Rightarrow> bool" where
  "keeps_key f \<longleftrightarrow>
     (\<forall>x. mech (f x) = mech x \<and> client (f x) = client x \<and> server (f x) = server x
          \<and> servertype (f x) = servertype x \<and> wait (f x) = wait x
          \<and> waiting (f x) = waiting x \<and> canceled (f x) = canceled x)"

inductive evolves ::
  "(NAHMechType \<Rightarrow> bool) \<Rightarrow> (string option \<Rightarrow> bool) \<Rightarrow> NAHData \<Rightarrow> NAHData \<Rightarrow> bool"
  for P :: "NAHMechType \<Rightarrow> bool" and Q :: "string option \<Rightarrow> bool" and na :: NAHData where
  ev_refl: "evolves P Q na na"
| ev_add: "evolves P Q na na1 \<Longrightarrow> P m \<Longrightarrow> Q s \<Longrightarrow>
           evolves P Q na (snd (snd (addSelection ok na1 c ct s st m d flags)))"
| ev_upd: "evolves P Q na na1 \<Longrightarrow> n < length (selections na1) \<Longrightarrow>
           P (mech (selections na1 ! n)) \<Longrightarrow> keeps_key f \<Longrightarrow>
           evolves P Q na (sel_update n f na1)"
| ev_bg: "evolves P Q na na1 \<Longrightarrow> Q None \<Longrightarrow> evolves P Q na (dispatch_background n na1)"
| ev_ctx: "evolves P Q na na1 \<Longrightarrow> evolves P Q na (na1 \<lparr> krb_context := a, hxctx := b \<rparr>)"

definition same_input :: "NAHData \<Rightarrow> NAHData \<Rightarrow> bool" where
  "same_input na na' \<longleftrightarrow>
     hostname na' = hostname na \<and> service na' = service na \<and> username na' = username na
     \<and> specificname na' = specificname na \<and> servermechs na' = servermechs na
     \<and> spnegoServerName na' = spnegoServerName na \<and> x509identities na' = x509identities na
     \<and> password na' = password na"

definition key_of :: "NAHSelectionData \<Rightarrow> NAHMechType \<times> string option \<times> string option \<times> string \<times> nat option" where
  "key_of x = (mech x, client x, server x, servertype x, wait x)"

definition resolved :: "NAHSelectionData \<Rightarrow> bool" where
  "resolved x \<longleftrightarrow> server x \<noteq> None \<and> wait x = None"

type_synonym add_args =
  "bool \<times> string \<times> string option \<times> string option \<times> string option \<times> NAHMechType
     \<times> int option \<times> 64 word"

fun addSelections :: "NAHData \<Rightarrow> add_args list \<Rightarrow> NAHData" where
  "addSelections na [] = na"
| "addSelections na ((ok, c, ct, s, st, m, d, flags) # calls) =
     addSelections (snd (snd (addSelection ok na c ct s st m d flags))) calls"

text \<open>
  For the latch: \<open>blocked_on ws h\<close> counts the waiters blocked on the semaphore
  \<open>h\<close>, and \<open>owed xs h\<close> adds up \<open>waiting\<close> over the selections whose latch is
  \<open>h\<close>. \<open>latch_inv\<close> says that every waiter is on a selection of the list, that
  \<open>waiting\<close> is never negative and is positive only on a selection that has a latch
  and is not canceled, that every semaphore in use is in the store, and that no more
  waiters are blocked on a semaphore than its value and the counts of its selections
  will let through. \<open>idle na\<close> is the system in which no caller of \<open>wait_result\<close> has
  arrived yet, and \<open>fresh_latches\<close> describes a session on which nobody has waited.
  \<open>one_latch\<close> says that no semaphore is the latch of two selections, and
  \<open>own_latch xs w\<close> that a blocked waiter is blocked on the latch of its selection or
  on a semaphore that is the latch of no selection any more.
\<close>

definition blocked_on :: "waiter list \<Rightarrow> dispatch_semaphore_t \<Rightarrow> nat" where
  "blocked_on ws h = length (filter (\<lambda>w. pc w = Blocked h) ws)"

definition owed :: "NAHSelectionData list \<Rightarrow> dispatch_semaphore_t \<Rightarrow> int" where
  "owed xs h = sum_list (map (\<lambda>x. if wait x = Some h then waiting x else 0) xs)"

definition latch_bound :: "nat \<Rightarrow> NAHSelectionData \<Rightarrow> bool" where
  "latch_bound k x = (case wait x of Some h \<Rightarrow> h < k | None \<Rightarrow> True)"

definition latch_ok :: "int list \<Rightarrow> NAHSelectionData \<Rightarrow> bool" where
  "latch_ok store x \<longleftrightarrow>
     0 \<le> waiting x \<and> (0 < waiting x \<longrightarrow> wait x \<noteq> None \<and> \<not> canceled x)
     \<and> latch_bound (length store) x"








section \<open>Example inputs\<close>

definition quiet_env :: env where
  "quiet_env =
     \<lparr> CFNetServiceDeconstructServiceName = (\<lambda>_. None),
       getlogin = Some ''root'',
       GSSEnable = None,
       UserSelections = None,
       CFRuntimeCreateInstance = (\<lambda>_. True),
       krb5_init_context = True,
       hx509_context_init = True,
       krb5_cccol = (\<lambda>_. Some []),
       krb5_principal_is_lkdc = (\<lambda>p. prefix ''LKDC:'' (princ_realm p)),
       krb5_get_host_realm = (\<lambda>_. None),
       krb5_get_default_realms = None,
       SecCertificateCopyData = (\<lambda>_. None),
       CC_SHA1 = (\<lambda>_. []),
       CSCopyKerberosPrincipalForCertificate = (\<lambda>_. None),
       hx509_cert_init_SecFramework = (\<lambda>_. 0),
       hx509_cert_get_appleid = (\<lambda>_. None),
       gss_iter_creds_NTLM = [],
       LKDCDiscoverRealm = (\<lambda>_. None),
       CSCopyAppleIDAccountForAppleIDCertificate = (\<lambda>_. None),
       SecCertificateCopyValues = (\<lambda>_. None),
       SecCertificateInferLabel = (\<lambda>_. None) \<rparr>"

definition session_of :: "string \<Rightarrow> string \<Rightarrow> string \<Rightarrow> string option \<Rightarrow> string option \<Rightarrow> NAHData" where
  "session_of h svc user specific pw =
     \<lparr> hostname = h, service = svc, username = user, specificname = specific,
       servermechs = None, spnegoServerName = None, x509identities = None,
       password = pw, krb_context = False, hxctx = False,
       selections = [], sems = [], bgq = [] \<rparr>"

definition bob_session :: NAHData where
  "bob_session = session_of ''fs.example.com'' ''afpserver'' ''bob'' (Some ''bob'') (Some ''p'')"

definition forced_alice :: NAHData where
  "forced_alice =
     snd (snd (addSelection True bob_session ''alice'' None (Some ''afpserver@fs.example.com'')
                 None GSS_KERBEROS None (USE_SPNEGO OR FORCE_ADD)))"

definition smb_info :: NAHInfo where
  "smb_info =
     \<lparr> kNAHUserName = Some (''DOMAIN'' @ backslash @ ''alice''),
       kNAHPassword = Some ''p'',
       kNAHNegTokenInit =
         Some \<lparr> kSPNEGONegTokenInitMechs =
                  Some [kGSSAPIMechKerberosOID \<mapsto> [], kGSSAPIMechNTLMOID \<mapsto> []],
                kSPNEGONegTokenInitHintsHostname = None \<rparr>,
       kNAHCertificates = None \<rparr>"

definition three_calls :: "add_args list" where
  "three_calls =
     [(True, ''bob@A'', None, Some ''afpserver/h@A'', None, GSS_KERBEROS, None, USE_SPNEGO),
      (True, ''bob@A'', None, None, None, GSS_KERBEROS, Some 0, USE_SPNEGO),
      (True, ''bob@A'', None, Some ''afpserver/h@A'', None, GSS_NTLM, None, 0)]"

definition bob_info :: NAHInfo where
  "bob_info = \<lparr> kNAHUserName = Some ''bob'', kNAHPassword = None,
                 kNAHNegTokenInit = None, kNAHCertificates = None \<rparr>"

definition override_env :: env where
  "override_env =
     quiet_env \<lparr> UserSelections :=
       Some (CFArray [CFDictionary [(''mech'', CFString ''ntlm''),
                                    (''domain'', CFString ''FS.example.com''),
                                    (''user'', CFString ''carol''),
                                    (''client'', CFString ''bob@corp'')]]) \<rparr>"

definition local_session :: NAHData where
  "local_session = session_of ''mac-mini.local'' ''afpserver'' ''bob@EXAMPLE.COM'' (Some ''bob'')
                     (Some ''p'')"

definition remote_session :: NAHData where
  "remote_session = session_of ''fs.example.com'' ''afpserver'' ''bob@example.com'' (Some ''bob'')
                      (Some ''p'')"

definition lkdc_cache :: cc_entry where
  "lkdc_cache =
     \<lparr> cc_id = 1,
       cc_get_principal =
         Some \<lparr> princ_realm = ''LKDC:SHA1.AA'', krb5_unparse_name = (0, ''bob@LKDC:SHA1.AA'') \<rparr>,
       cc_get_config = [''lkdc-hostname'' \<mapsto> ''mac-mini.local''] \<rparr>"

definition lkdc_env :: env where
  "lkdc_env =
     quiet_env \<lparr> krb5_cccol := (\<lambda>only_lkdc. Some [lkdc_cache]),
                 LKDCDiscoverRealm := (\<lambda>host. Some ''LKDC:SHA1.AA'') \<rparr>"

definition bob_password_info :: NAHInfo where
  "bob_password_info = \<lparr> kNAHUserName = Some ''bob'', kNAHPassword = Some ''p'',
                          kNAHNegTokenInit = None, kNAHCertificates = None \<rparr>"

definition realm_only_info :: NAHInfo where
  "realm_only_info =
     \<lparr> kNAHUserName = Some ''@R'', kNAHPassword = Some ''p'',
       kNAHNegTokenInit =
         Some \<lparr> kSPNEGONegTokenInitMechs = Some [kGSSAPIMechNTLMOID \<mapsto> []],
                kSPNEGONegTokenInitHintsHostname = None \<rparr>,
       kNAHCertificates = None \<rparr>"

definition held_cred_env :: env where
  "held_cred_env = quiet_env \<lparr> gss_iter_creds_NTLM := [''@R''] \<rparr>"

definition iakerb_info :: NAHInfo where
  "iakerb_info =
     \<lparr> kNAHUserName = Some ''bob'', kNAHPassword = Some ''p'',
       kNAHNegTokenInit =
         Some \<lparr> kSPNEGONegTokenInitMechs =
                  Some [kGSSAPIMechIAKERB \<mapsto> [], kGSSAPIMechSupportsAppleLKDC \<mapsto> []],
                kSPNEGONegTokenInitHintsHostname = None \<rparr>,
       kNAHCertificates = None \<rparr>"

definition no_context_env :: env where
  "no_context_env = quiet_env \<lparr> krb5_init_context := False \<rparr>"



definition bob_entry :: CFType where
  "bob_entry =
     CFDictionary [(''mech'', CFString ''kerberosuser2user''), (''domain'', CFString ''FS.EXAMPLE.COM''),
                   (''user'', CFString ''bob''), (''client'', CFString ''bob@CORP'')]"

definition bob_env :: env where
  "bob_env = quiet_env \<lparr> UserSelections := Some (CFArray [bob_entry]) \<rparr>"

definition referral_kdc :: "string \<Rightarrow> string \<Rightarrow> kdc" where
  "referral_kdc name realm =
     \<lparr> krb5_parse_name_flags = (\<lambda>str enterprise.
          (0, \<lparr> princ_realm = drop (Suc (length (takeWhile (\<lambda>ch. ch \<noteq> CHR ''@'') str))) str,
                krb5_unparse_name = (0, str) \<rparr>)),
       krb5_get_init_creds_opt_alloc = 0,
       krb5_get_init_creds_opt_set_pkinit = 0,
       krb5_init_creds_init = 0,
       krb5_init_creds_set_pkinit_client_cert = 0,
       krb5_init_creds_set_password = 0,
       krb5_init_creds_get = 0,
       krb5_init_creds_get_creds = (0, \<lparr> princ_realm = realm, krb5_unparse_name = (0, name) \<rparr>),
       krb5_cc_cache_match = 0,
       krb5_cc_new_unique = 0,
       krb5_cc_initialize = 0,
       krb5_cc_store_cred = 0,
       krb5_init_creds_store_config = 0,
       krb5_realm_is_lkdc = (\<lambda>r. prefix ''LKDC:'' r) \<rparr>"

definition alice_corp :: NAHData where
  "alice_corp =
     snd (snd (addSelection True
       (session_of ''fs.example.com'' ''cifs'' ''alice@corp'' (Some ''alice'') (Some ''p''))
       ''alice@corp'' (Some kNAHNTKRB5Principal) (Some ''cifs/fs.example.com@CORP'')
       (Some kNAHNTKRB5PrincipalReferral) GSS_KERBEROS None USE_SPNEGO))"

definition u2u_env :: env where
  "u2u_env = quiet_env \<lparr> UserSelections := Some (CFArray [bob_entry]) \<rparr>"

section \<open>Properties of addSelection\<close>

lemma dup_scan_None:
  "dup_scan xs n m c s st = None \<longleftrightarrow> (\<forall>x \<in> set xs. \<not> is_dup x m c s st)"
  by (induction xs arbitrary: n) (auto simp: is_dup_def)

lemma dup_scan_Some:
  "dup_scan xs n m c s st = Some k \<Longrightarrow>
     n \<le> k \<and> k < n + length xs \<and> is_dup (xs ! (k - n)) m c s st
     \<and> (\<forall>j < k - n. \<not> is_dup (xs ! j) m c s st)"
proof (induction xs arbitrary: n)
  case Nil
  then show ?case by simp
next
  case (Cons x xs)
  show ?case
  proof (cases "is_dup x m c s st")
    case True
    with Cons.prems have "k = n" by (auto simp: is_dup_def split: if_splits)
    with True show ?thesis by simp
  next
    case False
    with Cons.prems have r: "dup_scan xs (Suc n) m c s st = Some k"
      by (auto simp: is_dup_def split: if_splits)
    from Cons.IH[OF r] have a: "Suc n \<le> k" "k < Suc n + length xs"
      "is_dup (xs ! (k - Suc n)) m c s st" "\<forall>j < k - Suc n. \<not> is_dup (xs ! j) m c s st"
      by auto
    have "k - n = Suc (k - Suc n)" using a by arith
    with a False show ?thesis by (auto simp: nth_Cons split: nat.splits)
  qed
qed

lemma unique_keys_snoc:
  "unique_keys (xs @ [y]) \<longleftrightarrow> unique_keys xs \<and> (\<forall>x \<in> set xs. \<not> same_key x y)"
  by (induction xs) auto

lemma addSelection_reject:
  "\<not> matching_filter na c flags \<Longrightarrow> addSelection ok na c ct s st m d flags = (None, d, na)"
  by (simp add: addSelection_def)

lemma addSelection_found:
  "matching_filter na c flags \<Longrightarrow>
   dup_scan (selections na) 0 m c s (default_type kNAHNTServiceBasedName st) = Some n \<Longrightarrow>
   addSelection ok na c ct s st m d flags = (Some n, map_option (\<lambda>_. 1) d, na)"
  by (simp add: addSelection_def default_type_def)

lemma addSelection_nomem:
  "matching_filter na c flags \<Longrightarrow>
   dup_scan (selections na) 0 m c s (default_type kNAHNTServiceBasedName st) = None \<Longrightarrow>
   addSelection False na c ct s st m d flags = (None, map_option (\<lambda>_. 0) d, na)"
  by (simp add: addSelection_def default_type_def NAHSelectionAlloc_def)

lemma addSelection_new:
  "matching_filter na c flags \<Longrightarrow>
   dup_scan (selections na) 0 m c s (default_type kNAHNTServiceBasedName st) = None \<Longrightarrow>
   addSelection True na c ct s st m d flags =
     (Some (length (selections na)), map_option (\<lambda>_. 0) d, appended na c ct s st m flags)"
  by (simp add: addSelection_def default_type_def NAHSelectionAlloc_def appended_def
        new_selection_def)

lemma addSelection_cases:
  assumes "addSelection ok na c ct s st m d flags = (r, d', na')"
  shows "(r = None \<and> na' = na)
       \<or> (\<exists>n. r = Some n \<and> na' = na \<and> n < length (selections na) \<and> d' = map_option (\<lambda>_. 1) d
              \<and> matching_filter na c flags
              \<and> is_dup (selections na ! n) m c s (default_type kNAHNTServiceBasedName st))
       \<or> (r = Some (length (selections na)) \<and> d' = map_option (\<lambda>_. 0) d
              \<and> matching_filter na c flags
              \<and> (\<forall>y \<in> set (selections na). \<not> is_dup y m c s (default_type kNAHNTServiceBasedName st))
              \<and> na' = appended na c ct s st m flags)"
proof (cases "matching_filter na c flags")
  case False
  from assms addSelection_reject[OF False, of ok ct s st m d]
  have "r = None" "na' = na" by simp_all
  then show ?thesis by simp
next
  case mf: True
  show ?thesis
  proof (cases "dup_scan (selections na) 0 m c s (default_type kNAHNTServiceBasedName st)")
    case (Some n)
    from dup_scan_Some[OF Some] have "n < length (selections na)"
      "is_dup (selections na ! n) m c s (default_type kNAHNTServiceBasedName st)" by auto
    moreover from assms addSelection_found[OF mf Some, of ok ct d]
    have "r = Some n" "d' = map_option (\<lambda>_. 1) d" "na' = na" by simp_all
    ultimately show ?thesis using mf by simp
  next
    case None
    then have nd: "\<forall>y \<in> set (selections na). \<not> is_dup y m c s (default_type kNAHNTServiceBasedName st)"
      by (simp add: dup_scan_None)
    show ?thesis
    proof (cases ok)
      case False
      with assms addSelection_nomem[OF mf None, of ct d]
      have "r = None" "na' = na" by simp_all
      then show ?thesis by simp
    next
      case True
      with assms addSelection_new[OF mf None, of ct d]
      have "r = Some (length (selections na))" "d' = map_option (\<lambda>_. 0) d"
        "na' = appended na c ct s st m flags" by simp_all
      with mf nd show ?thesis by simp
    qed
  qed
qed

lemma new_selection_simps [simp]:
  "mech (new_selection na c ct s st m flags) = m"
  "client (new_selection na c ct s st m flags) = Some c"
  "server (new_selection na c ct s st m flags) = s"
  "servertype (new_selection na c ct s st m flags) = default_type kNAHNTServiceBasedName st"
  "clienttype (new_selection na c ct s st m flags) = default_type kNAHNTUsername ct"
  "spnego (new_selection na c ct s st m flags) = (flags AND USE_SPNEGO \<noteq> 0)"
  "wait (new_selection na c ct s st m flags) =
     (case s of Some _ \<Rightarrow> None | None \<Rightarrow> Some (length (sems na)))"
  "ccache (new_selection na c ct s st m flags) = None"
  "certificate (new_selection na c ct s st m flags) = None"
  "inferredLabel (new_selection na c ct s st m flags) = None"
  "have_cred (new_selection na c ct s st m flags) = False"
  "canceled (new_selection na c ct s st m flags) = False"
  "waiting (new_selection na c ct s st m flags) = 0"
  by (simp_all add: new_selection_def)

lemma appended_simps [simp]:
  "selections (appended na c ct s st m flags) =
     selections na @ [new_selection na c ct s st m flags]"
  "sems (appended na c ct s st m flags) =
     (case s of Some _ \<Rightarrow> sems na | None \<Rightarrow> sems na @ [0])"
  "hostname (appended na c ct s st m flags) = hostname na"
  "service (appended na c ct s st m flags) = service na"
  "username (appended na c ct s st m flags) = username na"
  "specificname (appended na c ct s st m flags) = specificname na"
  "servermechs (appended na c ct s st m flags) = servermechs na"
  "spnegoServerName (appended na c ct s st m flags) = spnegoServerName na"
  "x509identities (appended na c ct s st m flags) = x509identities na"
  "password (appended na c ct s st m flags) = password na"
  "bgq (appended na c ct s st m flags) = bgq na"
  by (simp_all add: appended_def)

lemma sel_update_simps [simp]:
  "selections (sel_update n f na) = (selections na)[n := f (selections na ! n)]"
  "sems (sel_update n f na) = sems na"
  "hostname (sel_update n f na) = hostname na"
  "service (sel_update n f na) = service na"
  "username (sel_update n f na) = username na"
  "specificname (sel_update n f na) = specificname na"
  "servermechs (sel_update n f na) = servermechs na"
  "spnegoServerName (sel_update n f na) = spnegoServerName na"
  "x509identities (sel_update n f na) = x509identities na"
  "password (sel_update n f na) = password na"
  "bgq (sel_update n f na) = bgq na"
  by (simp_all add: sel_update_def)

lemma dispatch_background_simps [simp]:
  "selections (dispatch_background n na) = selections na"
  "sems (dispatch_background n na) = sems na"
  "hostname (dispatch_background n na) = hostname na"
  "service (dispatch_background n na) = service na"
  "username (dispatch_background n na) = username na"
  "specificname (dispatch_background n na) = specificname na"
  "servermechs (dispatch_background n na) = servermechs na"
  "spnegoServerName (dispatch_background n na) = spnegoServerName na"
  "x509identities (dispatch_background n na) = x509identities na"
  "password (dispatch_background n na) = password na"
  "bgq (dispatch_background n na) = bgq na @ [n]"
  by (simp_all add: dispatch_background_def)

lemma addSelection_same_input:
  "same_input na (snd (snd (addSelection ok na c ct s st m d flags)))"
proof -
  obtain r d' na' where eq: "addSelection ok na c ct s st m d flags = (r, d', na')"
    by (cases "addSelection ok na c ct s st m d flags") auto
  from addSelection_cases[OF eq] have "same_input na na'"
    by (auto simp: same_input_def)
  with eq show ?thesis by simp
qed

lemma addSelection_input [simp]:
  "hostname (snd (snd (addSelection ok na c ct s st m d flags))) = hostname na"
  "service (snd (snd (addSelection ok na c ct s st m d flags))) = service na"
  "username (snd (snd (addSelection ok na c ct s st m d flags))) = username na"
  "specificname (snd (snd (addSelection ok na c ct s st m d flags))) = specificname na"
  "servermechs (snd (snd (addSelection ok na c ct s st m d flags))) = servermechs na"
  "spnegoServerName (snd (snd (addSelection ok na c ct s st m d flags))) = spnegoServerName na"
  "x509identities (snd (snd (addSelection ok na c ct s st m d flags))) = x509identities na"
  "password (snd (snd (addSelection ok na c ct s st m d flags))) = password na"
  using addSelection_same_input[of na ok c ct s st m d flags]
  by (simp_all add: same_input_def)

lemma evolves_same_input: "evolves P Q na na' \<Longrightarrow> same_input na na'"
  by (induction rule: evolves.induct) (simp_all add: same_input_def)

lemma evolves_trans:
  "evolves P Q na1 na2 \<Longrightarrow> evolves P Q na na1 \<Longrightarrow> evolves P Q na na2"
  by (induction rule: evolves.induct) (auto intro: evolves.intros)

lemma addSelection_returned:
  assumes "addSelection ok na c ct s st m d flags = (Some n, d', na')"
  shows "n < length (selections na') \<and> mech (selections na' ! n) = m
         \<and> client (selections na' ! n) = Some c"
  using addSelection_cases[OF assms]
  by (auto simp: is_dup_def nth_append)

lemma addSelection_fresh:
  assumes "addSelection ok na c ct s st m (Some d0) flags = (Some n, Some 0, na')"
  shows "n = length (selections na) \<and> na' = appended na c ct s st m flags"
  using addSelection_cases[OF assms] by auto

lemma ev_add_upd:
  assumes ev: "evolves P Q na0 na" and P: "P m" and Q: "Q s"
    and eq: "addSelection ok na c ct s st m d flags = (r, d', na')"
  shows "evolves P Q na0 na'"
    and "r = Some n \<Longrightarrow> keeps_key f \<Longrightarrow> evolves P Q na0 (sel_update n f na')"
proof -
  have na': "na' = snd (snd (addSelection ok na c ct s st m d flags))" using eq by simp
  show a: "evolves P Q na0 na'" unfolding na' by (rule ev_add[OF ev P Q])
  assume "r = Some n" and kk: "keeps_key f"
  with eq addSelection_returned[of ok na c ct s st m d flags n d' na']
  have "n < length (selections na')" "mech (selections na' ! n) = m" by auto
  with a P kk show "evolves P Q na0 (sel_update n f na')"
    by (auto intro: ev_upd)
qed

lemma keeps_key_simps [simp]:
  "keeps_key (certificate_update g)"
  "keeps_key (have_cred_update h)"
  "keeps_key (inferredLabel_update k)"
  "keeps_key (ccache_update j)"
  "keeps_key (bind_cache cc)"
  "keeps_key id"
  "keeps_key (\<lambda>x. x)"
  by (simp_all add: keeps_key_def bind_cache_def)

lemma add_realms_evolves:
  "P GSS_KERBEROS \<Longrightarrow> (\<And>x. Q (Some x)) \<Longrightarrow> evolves P Q na0 na \<Longrightarrow>
   evolves P Q na0 (add_realms e na realms flags)"
  by (induction realms arbitrary: na) (auto intro: ev_add)

lemma use_classic_kerberos_evolves:
  assumes "P GSS_KERBEROS" "\<And>x. Q (Some x)" "evolves P Q na0 na"
  shows "evolves P Q na0 (use_classic_kerberos e na flags)"
  unfolding use_classic_kerberos_def Let_def
  using assms
  by (auto intro!: add_realms_evolves ev_add split: option.splits)

lemma add_existing_evolves:
  assumes "P GSS_KERBEROS" "\<And>x. Q (Some x)" "evolves P Q na0 na"
  shows "evolves P Q na0 (add_existing e na cc u srv flags)"
proof -
  obtain r d' na' where eq: "addSelection (CFRuntimeCreateInstance e (length (selections na))) na
             u (Some kNAHNTKRB5Principal) (Some srv) (Some kNAHNTKRB5PrincipalReferral)
             GSS_KERBEROS None flags = (r, d', na')" by (rule prod_cases3)
  note h = ev_add_upd[OF assms(3) assms(1) assms(2)[of srv] eq]
  show ?thesis
    unfolding add_existing_def eq using h
    by (auto split: option.splits)
qed

lemma use_existing_loop_evolves:
  assumes P: "P GSS_KERBEROS" and Q: "\<And>x. Q (Some x)"
  shows "evolves P Q na0 na \<Longrightarrow>
         evolves P Q na0 (use_existing_loop e only_lkdc flags caches na)"
proof (induction caches arbitrary: na)
  case Nil
  then show ?case by simp
next
  case (Cons cc rest)
  have step: "evolves P Q na0
                (use_existing_loop e only_lkdc flags rest (add_existing e na cc u srv flags))"
    for u srv
    by (rule Cons.IH) (rule add_existing_evolves[OF P Q Cons.prems])
  show ?case using Cons.prems Cons.IH[OF Cons.prems] step
    by (auto simp: Let_def split: option.splits prod.splits)
qed

lemma use_existing_principals_evolves:
  "P GSS_KERBEROS \<Longrightarrow> (\<And>x. Q (Some x)) \<Longrightarrow> evolves P Q na0 na \<Longrightarrow>
   evolves P Q na0 (use_existing_principals e na only_lkdc flags)"
  by (auto simp: use_existing_principals_def intro: use_existing_loop_evolves split: option.splits)

lemma wellknown_lkdc_certs_evolves:
  "P mechtype \<Longrightarrow> (\<And>x. Q (Some x)) \<Longrightarrow> evolves P Q na0 na \<Longrightarrow>
   evolves P Q na0 (wellknown_lkdc_certs e mechtype flags s certs na)"
proof (induction certs arbitrary: na)
  case Nil
  then show ?case by simp
next
  case (Cons cert certs)
  show ?case
  proof (cases "case CSCopyKerberosPrincipalForCertificate e cert of
              Some csstr \<Rightarrow> Some (csstr @ ''@'' @ kWELLKNOWN_LKDC)
            | None \<Rightarrow>
                if hx509_cert_init_SecFramework e cert \<noteq> 0 then None
                else (case hx509_cert_get_appleid e cert of
                        None \<Rightarrow> None
                      | Some str \<Rightarrow> Some (str @ ''@'' @ kWELLKNOWN_LKDC))")
    case None
    then show ?thesis using Cons by simp
  next
    case (Some u)
    obtain r d' na' where eq: "addSelection (CFRuntimeCreateInstance e (length (selections na))) na
                  u (Some kNAHNTKRB5Principal) (Some s) (Some kNAHNTKRB5PrincipalReferral)
                  mechtype None flags = (r, d', na')" by (rule prod_cases3)
    note h = ev_add_upd[OF Cons.prems(3) Cons.prems(1) Cons.prems(2)[of s] eq]
    have "evolves P Q na0 (case r of None \<Rightarrow> na'
            | Some n \<Rightarrow> sel_update n (\<lambda>x. x \<lparr> certificate := Some cert \<rparr>) na')"
      using h by (auto split: option.splits)
    from Cons.IH[OF Cons.prems(1) Cons.prems(2) this] Some eq show ?thesis by simp
  qed
qed

lemma wellknown_lkdc_evolves:
  assumes "P mechtype" "\<And>x. Q (Some x)" "evolves P Q na0 na"
  shows "evolves P Q na0 (wellknown_lkdc e na mechtype flags)"
  unfolding wellknown_lkdc_def Let_def
  using assms
  by (auto intro!: wellknown_lkdc_certs_evolves ev_add split: option.splits)

lemma classic_lkdc_certs_evolves:
  assumes P: "P GSS_KERBEROS" and Q: "Q None"
  shows "evolves P Q na0 na \<Longrightarrow> evolves P Q na0 (classic_lkdc_certs e flags certs na)"
proof (induction certs arbitrary: na)
  case Nil
  then show ?case by simp
next
  case (Cons cert certs)
  show ?case
  proof (cases "SecCertificateCopyData e cert")
    case None
    with Cons show ?thesis by simp
  next
    case (Some certData)
    obtain r d' na' where eq:
      "addSelection (CFRuntimeCreateInstance e (length (selections na))) na
         (concat (map hex02X (CC_SHA1 e certData))) (Some kNAHNTKRB5Principal)
         None (Some kNAHNTKRB5PrincipalReferral) GSS_KERBEROS (Some 0) flags = (r, d', na')"
      by (rule prod_cases3)
    note h = ev_add_upd[OF Cons.prems P Q eq]
    have a: "evolves P Q na0 (classic_lkdc_certs e flags certs na')"
      by (rule Cons.IH) (rule h(1))
    have b: "evolves P Q na0 (classic_lkdc_certs e flags certs
               (dispatch_background n (sel_update n (\<lambda>x. x \<lparr> certificate := Some cert \<rparr>) na')))"
      if "r = Some n" for n
      by (rule Cons.IH) (rule ev_bg[OF h(2)[OF that] Q], simp)
    show ?thesis using Some eq a b by (simp split: option.splits)
  qed
qed

lemma classic_lkdc_evolves:
  assumes P: "P GSS_KERBEROS" and Q: "Q None" and ev: "evolves P Q na0 na"
  shows "evolves P Q na0 (classic_lkdc e na flags)"
proof (cases "is_local_hostname (hostname na)")
  case False
  then show ?thesis using ev by (simp add: classic_lkdc_def)
next
  case True
  define na1 where "na1 = classic_lkdc_certs e flags
                    (case x509identities na of None \<Rightarrow> [] | Some certs \<Rightarrow> certs) na"
  have ev1: "evolves P Q na0 na1"
    unfolding na1_def by (rule classic_lkdc_certs_evolves[OF P Q ev])
  obtain r d' na2 where eq:
    "addSelection (CFRuntimeCreateInstance e (length (selections na1))) na1
       (username na1) (Some kNAHNTKRB5Principal)
       None (Some kNAHNTKRB5PrincipalReferral) GSS_KERBEROS (Some 0) flags = (r, d', na2)"
    by (rule prod_cases3)
  note h = ev_add_upd[OF ev1 P Q eq]
  have "evolves P Q na0 (dispatch_background n na2)" for n
    by (rule ev_bg[OF h(1) Q])
  with h(1) ev1 eq True show ?thesis
    by (simp add: classic_lkdc_def Let_def na1_def[symmetric] split: option.splits)
qed

lemma classic_lkdc_not_local:
  "\<not> is_local_hostname (hostname na) \<Longrightarrow> classic_lkdc e na flags = na"
  by (simp add: classic_lkdc_def)

lemma use_classic_kerberos_local:
  "is_local_hostname (hostname na) \<Longrightarrow> use_classic_kerberos e na flags = na"
  by (simp add: use_classic_kerberos_def)

lemma evolves_hostname: "evolves P Q na na' \<Longrightarrow> hostname na' = hostname na"
  by (drule evolves_same_input) (simp add: same_input_def)

lemma evolves_password: "evolves P Q na na' \<Longrightarrow> password na' = password na"
  by (drule evolves_same_input) (simp add: same_input_def)

lemma guess_kerberos_evolves:
  assumes P: "P GSS_KERBEROS" "P GSS_KERBEROS_IAKERB" and Q: "\<And>x. Q (Some x)"
    and L: "Q None \<or> \<not> is_local_hostname (hostname na)"
  shows "evolves P Q na (guess_kerberos e na)"
proof -
  define flags where "flags = kerberos_flags na"
  define na0 where "na0 = na \<lparr> krb_context := True, hxctx := True \<rparr>"
  define na1 where "na1 = use_existing_principals e na0 True flags"
  define na2 where "na2 = (if try_iakerb_with_lkdc e na
                   then wellknown_lkdc e na1 GSS_KERBEROS_IAKERB flags else na1)"
  define na3 where "na3 = (if try_wlkdc e na then wellknown_lkdc e na2 GSS_KERBEROS flags else na2)"
  define na4 where "na4 = (case password na3 of
                     None \<Rightarrow> na3
                   | Some pw \<Rightarrow> use_classic_kerberos e na3 flags)"
  define na5 where "na5 = (if try_lkdc_classic na then classic_lkdc e na4 flags else na4)"
  have e0: "evolves P Q na na0" unfolding na0_def by (rule ev_ctx[OF ev_refl])
  have e1: "evolves P Q na na1"
    unfolding na1_def by (rule use_existing_principals_evolves[OF P(1) Q e0])
  have e2: "evolves P Q na na2"
    unfolding na2_def using wellknown_lkdc_evolves[OF P(2) Q e1] e1 by simp
  have e3: "evolves P Q na na3"
    unfolding na3_def using wellknown_lkdc_evolves[OF P(1) Q e2] e2 by simp
  have e4: "evolves P Q na na4"
    unfolding na4_def using use_classic_kerberos_evolves[OF P(1) Q e3] e3
    by (simp split: option.splits)
  have e5: "evolves P Q na na5"
  proof (cases "Q None")
    case True
    then show ?thesis unfolding na5_def using classic_lkdc_evolves[OF P(1) _ e4] e4 by simp
  next
    case False
    with L evolves_hostname[OF e4] have "\<not> is_local_hostname (hostname na4)" by simp
    then show ?thesis unfolding na5_def using e4 by (simp add: classic_lkdc_not_local)
  qed
  have e6: "evolves P Q na (use_existing_principals e na5 False flags)"
    by (rule use_existing_principals_evolves[OF P(1) Q e5])
  have ectx: "evolves P Q na (na \<lparr> krb_context := True \<rparr>)"
    using ev_ctx[OF ev_refl, where a = True and b = "hxctx na" and P = P and Q = Q and na = na]
    by simp
  show ?thesis
    unfolding guess_kerberos_def Let_def
    using e6[unfolded na5_def na4_def na3_def na2_def na1_def na0_def flags_def] ectx
    by (simp add: ev_refl)
qed

lemma guess_ntlm_creds_evolves:
  assumes P: "P GSS_NTLM" and Q: "\<And>x. Q (Some x)"
  shows "evolves P Q na0 na \<Longrightarrow> evolves P Q na0 (guess_ntlm_creds e s flags names na)"
proof (induction names arbitrary: na)
  case Nil
  then show ?case by simp
next
  case (Cons u names)
  obtain r d' na' where eq:
    "addSelection (CFRuntimeCreateInstance e (length (selections na))) na
       u (Some kNAHNTUsername) (Some s) None GSS_NTLM None flags = (r, d', na')"
    by (rule prod_cases3)
  note h = ev_add_upd[OF Cons.prems P Q[of s] eq]
  have "evolves P Q na0 (case r of None \<Rightarrow> na'
          | Some n \<Rightarrow> sel_update n (\<lambda>x. x \<lparr> have_cred := True \<rparr>) na')"
    using h by (auto split: option.splits)
  from Cons.IH[OF this] eq show ?case by simp
qed

lemma guess_ntlm_evolves:
  assumes P: "P GSS_NTLM" and Q: "\<And>x. Q (Some x)"
  shows "evolves P Q na (guess_ntlm e na)"
  unfolding guess_ntlm_def Let_def
  by (auto intro!: guess_ntlm_creds_evolves[where P = P and Q = Q] ev_add ev_refl P Q
        split: option.splits prod.splits)

lemma guess_ntlm_no_hint:
  "\<not> haveMech na kGSSAPIMechNTLMOID \<Longrightarrow> guess_ntlm e na = na"
  by (simp add: guess_ntlm_def)

lemma user_selection_evolves:
  assumes P: "\<And>m. m \<noteq> NO_MECH \<Longrightarrow> P m" and Q: "\<And>x. Q (Some x)"
    and ev: "evolves P Q na0 na" and eq: "user_selection e na dict = Inr na'"
  shows "evolves P Q na0 na'"
  using eq ev
  by (auto simp: user_selection_def intro!: ev_add P Q
        split: CFType.splits option.splits if_splits)

lemma user_selections_loop_evolves:
  assumes P: "\<And>m. m \<noteq> NO_MECH \<Longrightarrow> P m" and Q: "\<And>x. Q (Some x)"
  shows "evolves P Q na0 na \<Longrightarrow> user_selections_loop e array na = Inr na' \<Longrightarrow>
         evolves P Q na0 na'"
proof (induction array arbitrary: na)
  case Nil
  then show ?case by simp
next
  case (Cons dict array)
  from Cons.prems(2) obtain na1 where a: "user_selection e na dict = Inr na1"
    and b: "user_selections_loop e array na1 = Inr na'"
    by (auto split: sum.splits)
  from user_selection_evolves[OF P Q Cons.prems(1) a] have "evolves P Q na0 na1" by simp
  from Cons.IH[OF this b] show ?case .
qed

lemma add_user_selections_evolves:
  assumes P: "\<And>m. m \<noteq> NO_MECH \<Longrightarrow> P m" and Q: "\<And>x. Q (Some x)"
    and eq: "add_user_selections e na = Inr na'"
  shows "evolves P Q na na'"
  using eq user_selections_loop_evolves[where P = P and Q = Q and ?na0.0 = na and na = na
      and e = e and na' = na', OF P Q ev_refl]
  by (auto simp: add_user_selections_def intro: ev_refl split: option.splits CFType.splits)

lemma same_key_key_of:
  "key_of a = key_of a' \<Longrightarrow> key_of b = key_of b' \<Longrightarrow> same_key a b = same_key a' b'"
  by (simp add: key_of_def same_key_def)

lemma unique_keys_cong:
  "map key_of ys = map key_of xs \<Longrightarrow> unique_keys ys = unique_keys xs"
proof (induction xs arbitrary: ys)
  case Nil
  then show ?case by simp
next
  case (Cons x xs)
  then obtain y ys' where ys: "ys = y # ys'" and k: "key_of y = key_of x"
    and m: "map key_of ys' = map key_of xs" by (cases ys) auto
  have "(\<forall>b \<in> set ys'. \<not> same_key y b) = (\<forall>b \<in> set xs. \<not> same_key x b)"
  proof -
    have "(\<forall>b \<in> set ys'. \<not> same_key y b)
            = (\<forall>kb \<in> set (map key_of ys'). \<forall>b. key_of b = kb \<longrightarrow> \<not> same_key x b)"
      using k by (auto simp: same_key_def key_of_def)
    also have "\<dots> = (\<forall>kb \<in> set (map key_of xs). \<forall>b. key_of b = kb \<longrightarrow> \<not> same_key x b)"
      by (simp only: m)
    also have "\<dots> = (\<forall>b \<in> set xs. \<not> same_key x b)"
      by (auto simp: same_key_def key_of_def)
    finally show ?thesis .
  qed
  with Cons.IH[OF m] ys show ?case by simp
qed

lemma keeps_key_key_of: "keeps_key f \<Longrightarrow> key_of (f x) = key_of x"
  by (simp add: keeps_key_def key_of_def)

lemma map_key_of_update:
  "keeps_key f \<Longrightarrow> map key_of (xs[n := f (xs ! n)]) = map key_of xs"
proof -
  assume kk: "keeps_key f"
  have "map key_of (xs[n := f (xs ! n)]) = (map key_of xs)[n := key_of (f (xs ! n))]"
    by (rule map_update)
  also have "\<dots> = (map key_of xs)[n := key_of (xs ! n)]"
    by (simp only: keeps_key_key_of[OF kk])
  also have "\<dots> = map key_of (xs[n := xs ! n])"
    by (rule map_update[symmetric])
  also have "\<dots> = map key_of xs" by simp
  finally show ?thesis .
qed

lemma is_dup_same_key:
  "mech y = m \<Longrightarrow> client y = Some c \<Longrightarrow> server y = s \<Longrightarrow> servertype y = st \<Longrightarrow>
   same_key x y = is_dup x m c s st"
  by (auto simp: same_key_def is_dup_def)

lemma addSelection_unique_keys:
  assumes "unique_keys (selections na)"
  shows "unique_keys (selections (snd (snd (addSelection ok na c ct s st m d flags))))"
proof -
  obtain r d' na' where eq: "addSelection ok na c ct s st m d flags = (r, d', na')"
    by (rule prod_cases3)
  from addSelection_cases[OF eq] assms have "unique_keys (selections na')"
    by (auto simp: unique_keys_snoc is_dup_same_key)
  with eq show ?thesis by simp
qed

lemma evolves_unique_keys:
  "evolves P Q na na' \<Longrightarrow> unique_keys (selections na) \<Longrightarrow> unique_keys (selections na')"
proof (induction rule: evolves.induct)
  case (ev_upd na1 n f)
  then show ?case by (simp add: unique_keys_cong[OF map_key_of_update])
qed (simp_all add: addSelection_unique_keys)

lemma addSelection_prefix:
  "prefix (map key_of (selections na))
     (map key_of (selections (snd (snd (addSelection ok na c ct s st m d flags)))))"
proof -
  obtain r d' na' where eq: "addSelection ok na c ct s st m d flags = (r, d', na')"
    by (rule prod_cases3)
  from addSelection_cases[OF eq] have "prefix (map key_of (selections na)) (map key_of (selections na'))"
    by auto
  with eq show ?thesis by simp
qed

lemma evolves_prefix:
  "evolves P Q na na' \<Longrightarrow> prefix (map key_of (selections na)) (map key_of (selections na'))"
proof (induction rule: evolves.induct)
  case (ev_add na1 m s ok c ct st d flags)
  from ev_add.IH addSelection_prefix[of na1 ok c ct s st m d flags]
  show ?case by (rule prefix_order.trans)
next
  case (ev_upd na1 n f)
  then show ?case by (simp add: map_key_of_update)
qed simp_all

lemma filter_update_other:
  "\<not> R (xs ! n) \<Longrightarrow> \<not> R y \<Longrightarrow> filter R (xs[n := y]) = filter R xs"
proof (induction xs arbitrary: n)
  case Nil
  then show ?case by simp
next
  case (Cons x xs)
  then show ?case by (cases n) auto
qed

lemma addSelection_filter_mech:
  assumes "m \<noteq> k"
  shows "filter (\<lambda>x. mech x = k) (selections (snd (snd (addSelection ok na c ct s st m d flags))))
         = filter (\<lambda>x. mech x = k) (selections na)"
proof -
  obtain r d' na' where eq: "addSelection ok na c ct s st m d flags = (r, d', na')"
    by (rule prod_cases3)
  from addSelection_cases[OF eq] assms
  have "filter (\<lambda>x. mech x = k) (selections na') = filter (\<lambda>x. mech x = k) (selections na)"
    by auto
  with eq show ?thesis by simp
qed

lemma evolves_filter_mech:
  "evolves P Q na na' \<Longrightarrow> \<not> P k \<Longrightarrow>
   filter (\<lambda>x. mech x = k) (selections na') = filter (\<lambda>x. mech x = k) (selections na)"
proof (induction rule: evolves.induct)
  case (ev_add na1 m s ok c ct st d flags)
  then have "m \<noteq> k" by auto
  from addSelection_filter_mech[OF this] ev_add show ?case by simp
next
  case (ev_upd na1 n f)
  then have "mech (selections na1 ! n) \<noteq> k" "mech (f (selections na1 ! n)) \<noteq> k"
    by (auto simp: keeps_key_def)
  with ev_upd show ?case by (simp add: filter_update_other)
qed simp_all

lemma addSelection_resolved:
  assumes "s \<noteq> None"
  shows "bgq (snd (snd (addSelection ok na c ct s st m d flags))) = bgq na
       \<and> sems (snd (snd (addSelection ok na c ct s st m d flags))) = sems na
       \<and> ((\<forall>x \<in> set (selections na). resolved x) \<longrightarrow>
            (\<forall>x \<in> set (selections (snd (snd (addSelection ok na c ct s st m d flags)))). resolved x))"
proof -
  obtain r d' na' where eq: "addSelection ok na c ct s st m d flags = (r, d', na')"
    by (rule prod_cases3)
  from addSelection_cases[OF eq] assms
  have "bgq na' = bgq na \<and> sems na' = sems na
       \<and> ((\<forall>x \<in> set (selections na). resolved x) \<longrightarrow> (\<forall>x \<in> set (selections na'). resolved x))"
    by (auto simp: resolved_def)
  with eq show ?thesis by simp
qed

lemma Ball_list_update:
  assumes "\<forall>x \<in> set xs. R x" and "R y"
  shows "\<forall>x \<in> set (xs[n := y]). R x"
proof
  fix x assume "x \<in> set (xs[n := y])"
  then have "x \<in> insert y (set xs)" using set_update_subset_insert by fastforce
  with assms show "R x" by auto
qed

lemma evolves_resolved:
  "evolves P Q na na' \<Longrightarrow> \<not> Q None \<Longrightarrow>
   bgq na' = bgq na \<and> sems na' = sems na
   \<and> ((\<forall>x \<in> set (selections na). resolved x) \<longrightarrow> (\<forall>x \<in> set (selections na'). resolved x))"
proof (induction rule: evolves.induct)
  case (ev_add na1 m s ok c ct st d flags)
  then have "s \<noteq> None" by (cases s) auto
  from addSelection_resolved[OF this, of ok na1 c ct st m d flags] ev_add.IH[OF ev_add.prems]
  show ?case by metis
next
  case (ev_upd na1 n f)
  have r: "resolved (f x) = resolved x" for x
    using ev_upd.hyps(4) by (simp add: resolved_def keeps_key_def)
  have u: "\<forall>x \<in> set (selections (sel_update n f na1)). resolved x"
    if a: "\<forall>x \<in> set (selections na1). resolved x"
    unfolding sel_update_simps
  proof (rule Ball_list_update[OF a])
    from a ev_upd.hyps(2) have "resolved (selections na1 ! n)" by simp
    then show "resolved (f (selections na1 ! n))" by (simp only: r)
  qed
  from ev_upd.IH[OF ev_upd.prems]
  have b: "bgq na1 = bgq na" and s: "sems na1 = sems na"
    and i: "(\<forall>x \<in> set (selections na). resolved x) \<longrightarrow>
            (\<forall>x \<in> set (selections na1). resolved x)"
    by blast+
  show ?case
  proof (intro conjI impI)
    show "bgq (sel_update n f na1) = bgq na" using b by simp
    show "sems (sel_update n f na1) = sems na" using s by simp
    assume "\<forall>x \<in> set (selections na). resolved x"
    with i have "\<forall>x \<in> set (selections na1). resolved x" by blast
    then show "\<forall>x \<in> set (selections (sel_update n f na1)). resolved x" by (rule u)
  qed
qed simp_all

lemma word_flags [simp]:
  "USE_SPNEGO AND FORCE_ADD = 0" "FORCE_ADD AND FORCE_ADD \<noteq> 0" "USE_SPNEGO AND USE_SPNEGO \<noteq> 0"
  "(USE_SPNEGO OR FORCE_ADD) AND FORCE_ADD \<noteq> 0" "(USE_SPNEGO OR FORCE_ADD) AND USE_SPNEGO \<noteq> 0"
  "(1::64 word) AND FORCE_ADD = 0" "(1::64 word) AND USE_SPNEGO \<noteq> 0"
  "(0::64 word) AND FORCE_ADD = 0" "FORCE_ADD \<noteq> 0" "USE_SPNEGO \<noteq> 0"
  by (simp_all add: USE_SPNEGO_def FORCE_ADD_def)

lemma bob_session_simps [simp]:
  "specificname bob_session = Some ''bob''"
  "selections bob_session = []"
  "sems bob_session = []"
  by (simp_all add: bob_session_def session_of_def)

lemma addSelection_dup_exists:
  assumes mf: "matching_filter na c flags"
    and ex: "\<exists>x \<in> set (selections na). is_dup x m c s (default_type kNAHNTServiceBasedName st)"
  shows "\<exists>n < length (selections na).
           is_dup (selections na ! n) m c s (default_type kNAHNTServiceBasedName st)
           \<and> addSelection ok na c ct s st m d flags = (Some n, map_option (\<lambda>_. 1) d, na)"
proof -
  from ex have "dup_scan (selections na) 0 m c s (default_type kNAHNTServiceBasedName st) \<noteq> None"
    by (simp add: dup_scan_None)
  then obtain n where n: "dup_scan (selections na) 0 m c s (default_type kNAHNTServiceBasedName st) = Some n"
    by blast
  from dup_scan_Some[OF n] addSelection_found[OF mf n] show ?thesis by auto
qed

lemma forced_alice_eq:
  "forced_alice = appended bob_session ''alice'' None (Some ''afpserver@fs.example.com'')
                    None GSS_KERBEROS (USE_SPNEGO OR FORCE_ADD)"
proof -
  have "matching_filter bob_session ''alice'' (USE_SPNEGO OR FORCE_ADD)"
    by (simp add: matching_filter_def)
  moreover have "dup_scan (selections bob_session) 0 GSS_KERBEROS ''alice''
     (Some ''afpserver@fs.example.com'') (default_type kNAHNTServiceBasedName None) = None"
    by simp
  ultimately show ?thesis
    unfolding forced_alice_def by (simp add: addSelection_new)
qed

lemma forced_alice_simps [simp]:
  "selections forced_alice =
     [new_selection bob_session ''alice'' None (Some ''afpserver@fs.example.com'')
        None GSS_KERBEROS (USE_SPNEGO OR FORCE_ADD)]"
  "specificname forced_alice = Some ''bob''"
  by (simp_all add: forced_alice_eq)

lemma addSelections_unique_keys:
  "unique_keys (selections na) \<Longrightarrow> unique_keys (selections (addSelections na calls))"
  by (induction na calls rule: addSelections.induct) (simp_all add: addSelection_unique_keys)

lemma guessing_game_evolves:
  assumes P: "\<And>m. m \<noteq> NO_MECH \<Longrightarrow> P m" and Q: "\<And>x. Q (Some x)"
    and L: "Q None \<or> \<not> is_local_hostname (hostname na)"
    and eq: "guessing_game e na = Inr na'"
  shows "evolves P Q na na'"
proof -
  from eq obtain na1 where a: "add_user_selections e na = Inr na1"
    by (auto simp: guessing_game_def split: sum.splits)
  have e1: "evolves P Q na na1"
    by (rule add_user_selections_evolves[where P = P and Q = Q, OF P Q a])
  from L evolves_hostname[OF e1] have L1: "Q None \<or> \<not> is_local_hostname (hostname na1)" by simp
  have "evolves P Q na1 (guess_kerberos e na1)"
    by (rule guess_kerberos_evolves[where P = P and Q = Q, OF P P Q L1]) simp_all
  then have e2: "evolves P Q na (guess_kerberos e na1)" using e1 by (rule evolves_trans)
  have "evolves P Q (guess_kerberos e na1) (guess_ntlm e (guess_kerberos e na1))"
    by (rule guess_ntlm_evolves[where P = P and Q = Q, OF P Q]) simp
  then have e3: "evolves P Q na (guess_ntlm e (guess_kerberos e na1))" using e2 by (rule evolves_trans)
  from eq a e2 e3 show ?thesis by (auto simp: guessing_game_def Let_def split: if_splits)
qed

lemma NAHCreate_session_empty:
  "NAHCreate_session e h svc info = Some na \<Longrightarrow>
     selections na = [] \<and> bgq na = [] \<and> sems na = []"
  by (auto simp: NAHCreate_session_def Let_def split: option.splits prod.splits)

lemma NAHCreate_unique_keys:
  assumes "NAHCreate e h svc info = Inr (Some na')"
  shows "unique_keys (selections na')"
proof -
  from assms obtain na where a: "NAHCreate_session e h svc info = Some na"
    and b: "guessing_game e na = Inr na'"
    by (auto simp: NAHCreate_def split: option.splits sum.splits)
  have "evolves (\<lambda>_. True) (\<lambda>_. True) na na'"
    by (rule guessing_game_evolves[where P = "\<lambda>_. True" and Q = "\<lambda>_. True", OF _ _ _ b])
       simp_all
  moreover from NAHCreate_session_empty[OF a] have "unique_keys (selections na)" by simp
  ultimately show ?thesis by (rule evolves_unique_keys)
qed

lemma addSelection_dup_appends_nothing:
  assumes "\<exists>x \<in> set (selections na). is_dup x m c s (default_type kNAHNTServiceBasedName st)"
  shows "selections (snd (snd (addSelection ok na c ct s st m d flags))) = selections na"
proof -
  obtain r d' na' where eq: "addSelection ok na c ct s st m d flags = (r, d', na')"
    by (rule prod_cases3)
  from addSelection_cases[OF eq] assms have "selections na' = selections na" by auto
  with eq show ?thesis by simp
qed

lemma smb_created:
  "case NAHCreate quiet_env ''fs.corp.example.com'' ''cifs'' (Some smb_info) of
     Inr (Some na) \<Rightarrow> map mech (selections na) = [GSS_KERBEROS, GSS_NTLM, GSS_NTLM]
   | _ \<Rightarrow> False"
  by code_simp

lemma three_calls_mechs:
  "map mech (selections (addSelections bob_session three_calls)) = [GSS_KERBEROS, GSS_NTLM]"
  by code_simp

lemma is_smb_cong: "service na' = service na \<Longrightarrow> is_smb na' = is_smb na"
  by (simp add: is_smb_def)

lemma haveMech_cong: "servermechs na' = servermechs na \<Longrightarrow> haveMech na' m = haveMech na m"
  by (simp add: haveMech_def)

lemma guessing_game_ntlm:
  assumes us: "add_user_selections e na0 = Inr na1"
    and cond: "x509identities na0 \<noteq> None \<or> \<not> is_smb na0 \<or> \<not> haveMech na0 kGSSAPIMechNTLMOID"
  shows "\<exists>na. guessing_game e na0 = Inr na
           \<and> filter (\<lambda>x. mech x = GSS_NTLM) (selections na)
             = filter (\<lambda>x. mech x = GSS_NTLM) (selections na1)"
proof -
  define na2 where "na2 = guess_kerberos e na1"
  have e1: "evolves (\<lambda>_. True) (\<lambda>_. True) na0 na1"
    by (rule add_user_selections_evolves[where P = "\<lambda>_. True" and Q = "\<lambda>_. True", OF _ _ us])
       simp_all
  have e2: "evolves (\<lambda>m. m \<noteq> GSS_NTLM) (\<lambda>_. True) na1 na2"
    unfolding na2_def
    by (rule guess_kerberos_evolves[where P = "\<lambda>m. m \<noteq> GSS_NTLM" and Q = "\<lambda>_. True"])
       simp_all
  from evolves_same_input[OF e1] evolves_same_input[OF e2]
  have s: "x509identities na2 = x509identities na0" "service na2 = service na0"
    "servermechs na2 = servermechs na0"
    by (simp_all add: same_input_def)
  have f: "filter (\<lambda>x. mech x = GSS_NTLM) (selections na2)
           = filter (\<lambda>x. mech x = GSS_NTLM) (selections na1)"
    by (rule evolves_filter_mech[OF e2]) simp
  have i: "(if x509identities na2 = None \<and> is_smb na2 then guess_ntlm e na2 else na2) = na2"
    using cond s(1) is_smb_cong[OF s(2)] haveMech_cong[OF s(3), of kGSSAPIMechNTLMOID]
    by (auto simp: guess_ntlm_no_hint)
  have "guessing_game e na0
        = Inr (if x509identities na2 = None \<and> is_smb na2 then guess_ntlm e na2 else na2)"
    using us by (simp add: guessing_game_def Let_def na2_def)
  then have "guessing_game e na0 = Inr na2" by (simp only: i)
  with f show ?thesis by (intro exI[of _ na2] conjI)
qed

lemma afp_session:
  "\<exists>na0. NAHCreate_session quiet_env ''mini.example.com'' ''afpserver'' (Some smb_info) = Some na0
         \<and> service na0 = ''afpserver''"
  by (simp add: NAHCreate_session_def Let_def split: option.splits prod.splits)
     (simp add: findUsername_def smb_info_def backslash_def split: option.splits)

lemma afp_created:
  "case NAHCreate quiet_env ''mini.example.com'' ''afpserver'' (Some smb_info) of
     Inr (Some na) \<Rightarrow> map mech (selections na) = [GSS_KERBEROS]
   | _ \<Rightarrow> False"
  by code_simp

lemma guessing_game_resolved:
  assumes nl: "\<not> is_local_hostname (hostname na)"
    and g: "guessing_game e na = Inr na'"
    and b: "bgq na = []" and r: "\<forall>x \<in> set (selections na). resolved x"
  shows "bgq na' = [] \<and> (\<forall>x \<in> set (selections na'). resolved x)"
proof -
  have "evolves (\<lambda>_. True) (\<lambda>s. s \<noteq> None) na na'"
    by (rule guessing_game_evolves[where P = "\<lambda>_. True" and Q = "\<lambda>s. s \<noteq> None", OF _ _ _ g])
       (simp_all add: nl)
  from evolves_resolved[OF this] b r show ?thesis by simp
qed

lemma remote_game:
  "case guessing_game quiet_env remote_session of
     Inr na \<Rightarrow> map client (selections na) = [Some ''bob@example.com'']
              \<and> map server (selections na) = [Some ''afpserver/fs.example.com@EXAMPLE.COM'']
              \<and> map wait (selections na) = [None]
   | Inl err \<Rightarrow> False"
  by code_simp

lemma local_game:
  "case guessing_game quiet_env local_session of
     Inr na \<Rightarrow> map client (selections na) = [Some ''bob@EXAMPLE.COM'']
              \<and> map server (selections na) = [None]
              \<and> map wait (selections na) = [Some 0]
              \<and> bgq na = [0]
   | Inl err \<Rightarrow> False"
  by code_simp

lemma matching_filter_cong:
  "specificname na' = specificname na \<Longrightarrow> matching_filter na' c flags = matching_filter na c flags"
  by (simp add: matching_filter_def)

lemma addSelection_present:
  assumes mf: "matching_filter na c flags"
    and r: "\<forall>x \<in> set (selections na). resolved x"
  shows "\<exists>x \<in> set (selections (snd (snd (addSelection True na c ct (Some srv) st m d flags)))).
           mech x = m \<and> client x = Some c \<and> server x = Some srv"
proof (cases "dup_scan (selections na) 0 m c (Some srv) (default_type kNAHNTServiceBasedName st)")
  case None
  from addSelection_new[OF mf None, of ct d]
  show ?thesis by simp
next
  case (Some n)
  from dup_scan_Some[OF Some] have n: "n < length (selections na)"
    and d: "is_dup (selections na ! n) m c (Some srv) (default_type kNAHNTServiceBasedName st)"
    by auto
  from n r have "resolved (selections na ! n)" by simp
  with d have "mech (selections na ! n) = m \<and> client (selections na ! n) = Some c
               \<and> server (selections na ! n) = Some srv"
    by (auto simp: is_dup_def resolved_def)
  with n addSelection_found[OF mf Some, of True ct d] show ?thesis
    by (auto intro!: bexI[of _ "selections na ! n"])
qed

lemma evolves_keeps_record:
  assumes ev: "evolves P Q na na'" and x: "x \<in> set (selections na)"
  shows "\<exists>y \<in> set (selections na'). mech y = mech x \<and> client y = client x \<and> server y = server x"
proof -
  from x have "key_of x \<in> set (map key_of (selections na))" by simp
  with set_mono_prefix[OF evolves_prefix[OF ev]]
  have "key_of x \<in> set (map key_of (selections na'))" by blast
  then obtain y where "y \<in> set (selections na')" "key_of y = key_of x" by auto
  then show ?thesis by (auto simp: key_of_def)
qed

lemma wellknown_lkdc_present:
  assumes pw: "password na = Some p"
    and mf: "matching_filter na (username na @ ''@'' @ kWELLKNOWN_LKDC) flags"
    and al: "\<forall>n. CFRuntimeCreateInstance e n"
    and r: "\<forall>x \<in> set (selections na). resolved x"
  shows "\<exists>x \<in> set (selections (wellknown_lkdc e na mechtype flags)).
           mech x = mechtype \<and> client x = Some (username na @ ''@'' @ kWELLKNOWN_LKDC)
           \<and> server x = Some (service na @ ''/localhost@'' @ kWELLKNOWN_LKDC)"
proof -
  define na1 where "na1 = snd (snd (addSelection True na
      (username na @ ''@'' @ kWELLKNOWN_LKDC) (Some kNAHNTKRB5Principal)
      (Some (service na @ ''/localhost@'' @ kWELLKNOWN_LKDC))
      (Some kNAHNTKRB5Principal) mechtype None flags))"
  from addSelection_present[OF mf r] obtain x where
    x: "x \<in> set (selections na1)" "mech x = mechtype"
      "client x = Some (username na @ ''@'' @ kWELLKNOWN_LKDC)"
      "server x = Some (service na @ ''/localhost@'' @ kWELLKNOWN_LKDC)"
    unfolding na1_def by blast
  have w: "wellknown_lkdc e na mechtype flags
           = wellknown_lkdc_certs e mechtype flags (service na @ ''/localhost@'' @ kWELLKNOWN_LKDC)
               (case x509identities na1 of None \<Rightarrow> [] | Some certs \<Rightarrow> certs) na1"
    using pw al by (simp add: wellknown_lkdc_def Let_def na1_def)
  have "evolves (\<lambda>_. True) (\<lambda>_. True) na1 (wellknown_lkdc e na mechtype flags)"
    unfolding w
    by (rule wellknown_lkdc_certs_evolves[where P = "\<lambda>_. True" and Q = "\<lambda>_. True"])
       (simp_all add: ev_refl)
  from evolves_keeps_record[OF this x(1)] x(2,3,4) show ?thesis by auto
qed

lemma evolves_specificname: "evolves P Q na na' \<Longrightarrow> specificname na' = specificname na"
  by (drule evolves_same_input) (simp add: same_input_def)

lemma evolves_username: "evolves P Q na na' \<Longrightarrow> username na' = username na"
  by (drule evolves_same_input) (simp add: same_input_def)

lemma evolves_service: "evolves P Q na na' \<Longrightarrow> service na' = service na"
  by (drule evolves_same_input) (simp add: same_input_def)

lemma guess_kerberos_wellknown:
  assumes hk: "have_kerberos na" and c1: "krb5_init_context e" and c2: "hx509_context_init e"
    and pw: "password na = Some p"
    and mf: "matching_filter na (username na @ ''@'' @ kWELLKNOWN_LKDC) (kerberos_flags na)"
    and al: "\<forall>n. CFRuntimeCreateInstance e n"
    and r: "\<forall>x \<in> set (selections na). resolved x"
    and t: "(try_iakerb_with_lkdc e na \<and> mechtype = GSS_KERBEROS_IAKERB)
            \<or> (try_wlkdc e na \<and> mechtype = GSS_KERBEROS)"
  shows "\<exists>x \<in> set (selections (guess_kerberos e na)).
           mech x = mechtype \<and> client x = Some (username na @ ''@'' @ kWELLKNOWN_LKDC)
           \<and> server x = Some (service na @ ''/localhost@'' @ kWELLKNOWN_LKDC)"
proof -
  define flags where "flags = kerberos_flags na"
  define na0 where "na0 = na \<lparr> krb_context := True, hxctx := True \<rparr>"
  define na1 where "na1 = use_existing_principals e na0 True flags"
  define na2 where "na2 = (if try_iakerb_with_lkdc e na
                   then wellknown_lkdc e na1 GSS_KERBEROS_IAKERB flags else na1)"
  define na3 where "na3 = (if try_wlkdc e na then wellknown_lkdc e na2 GSS_KERBEROS flags else na2)"
  define na4 where "na4 = (case password na3 of
                     None \<Rightarrow> na3
                   | Some pw \<Rightarrow> use_classic_kerberos e na3 flags)"
  define na5 where "na5 = (if try_lkdc_classic na then classic_lkdc e na4 flags else na4)"
  define na6 where "na6 = use_existing_principals e na5 False flags"
  let ?P = "\<lambda>_::NAHMechType. True" and ?S = "\<lambda>s::string option. s \<noteq> None"
    and ?Q = "\<lambda>_::string option. True"
  have g: "guess_kerberos e na = na6"
    unfolding na6_def na5_def na4_def na3_def na2_def na1_def na0_def flags_def
      guess_kerberos_def Let_def
    using hk c1 c2 by simp
  have e0: "evolves ?P ?S na na0" unfolding na0_def by (rule ev_ctx[OF ev_refl])
  have e1: "evolves ?P ?S na na1"
    unfolding na1_def
    by (rule use_existing_principals_evolves[where P = ?P and Q = ?S, OF _ _ e0]) simp_all
  have e2: "evolves ?P ?S na na2"
    unfolding na2_def
    using wellknown_lkdc_evolves[where P = ?P and Q = ?S, OF _ _ e1] e1 by simp
  have in1: "password na1 = Some p" "username na1 = username na" "service na1 = service na"
    "specificname na1 = specificname na" "\<forall>x \<in> set (selections na1). resolved x"
    using evolves_password[OF e1] evolves_username[OF e1] evolves_service[OF e1]
      evolves_specificname[OF e1] evolves_resolved[OF e1] pw r by simp_all
  have in2: "password na2 = Some p" "username na2 = username na" "service na2 = service na"
    "specificname na2 = specificname na" "\<forall>x \<in> set (selections na2). resolved x"
    using evolves_password[OF e2] evolves_username[OF e2] evolves_service[OF e2]
      evolves_specificname[OF e2] evolves_resolved[OF e2] pw r by simp_all
  have e23: "evolves ?P ?Q na2 na3"
    unfolding na3_def
    using wellknown_lkdc_evolves[where P = ?P and Q = ?Q and ?na0.0 = na2 and na = na2]
    by (simp add: ev_refl)
  have e34: "evolves ?P ?Q na3 na4"
    unfolding na4_def
    using use_classic_kerberos_evolves[where P = ?P and Q = ?Q and ?na0.0 = na3 and na = na3]
    by (simp add: ev_refl split: option.splits)
  have e45: "evolves ?P ?Q na4 na5"
    unfolding na5_def
    using classic_lkdc_evolves[where P = ?P and Q = ?Q and ?na0.0 = na4 and na = na4]
    by (simp add: ev_refl)
  have e56: "evolves ?P ?Q na5 na6"
    unfolding na6_def
    by (rule use_existing_principals_evolves[where P = ?P and Q = ?Q]) (simp_all add: ev_refl)
  have e36: "evolves ?P ?Q na3 na6"
    using e56 evolves_trans e45 e34 by blast
  have e26: "evolves ?P ?Q na2 na6"
    using e36 e23 by (rule evolves_trans)
  have mf': "matching_filter na (username na @ ''@'' @ kWELLKNOWN_LKDC) flags"
    using mf by (simp add: flags_def)
  from t show ?thesis
  proof
    assume a: "try_iakerb_with_lkdc e na \<and> mechtype = GSS_KERBEROS_IAKERB"
    have "\<exists>x \<in> set (selections (wellknown_lkdc e na1 GSS_KERBEROS_IAKERB flags)).
           mech x = GSS_KERBEROS_IAKERB \<and> client x = Some (username na1 @ ''@'' @ kWELLKNOWN_LKDC)
           \<and> server x = Some (service na1 @ ''/localhost@'' @ kWELLKNOWN_LKDC)"
      by (rule wellknown_lkdc_present[OF in1(1) _ al in1(5)])
         (use mf' in \<open>simp add: in1 matching_filter_cong[OF in1(4)]\<close>)
    then obtain x where "x \<in> set (selections na2)" "mech x = mechtype"
      "client x = Some (username na @ ''@'' @ kWELLKNOWN_LKDC)"
      "server x = Some (service na @ ''/localhost@'' @ kWELLKNOWN_LKDC)"
      using a by (auto simp: na2_def in1)
    with evolves_keeps_record[OF e26 this(1)] g show ?thesis by auto
  next
    assume a: "try_wlkdc e na \<and> mechtype = GSS_KERBEROS"
    have "\<exists>x \<in> set (selections (wellknown_lkdc e na2 GSS_KERBEROS flags)).
           mech x = GSS_KERBEROS \<and> client x = Some (username na2 @ ''@'' @ kWELLKNOWN_LKDC)
           \<and> server x = Some (service na2 @ ''/localhost@'' @ kWELLKNOWN_LKDC)"
      by (rule wellknown_lkdc_present[OF in2(1) _ al in2(5)])
         (use mf' in \<open>simp add: in2 matching_filter_cong[OF in2(4)]\<close>)
    then obtain x where "x \<in> set (selections na3)" "mech x = mechtype"
      "client x = Some (username na @ ''@'' @ kWELLKNOWN_LKDC)"
      "server x = Some (service na @ ''/localhost@'' @ kWELLKNOWN_LKDC)"
      using a by (auto simp: na3_def in2)
    with evolves_keeps_record[OF e36 this(1)] g show ?thesis by auto
  qed
qed

lemma smb_created_dup:
  "case NAHCreate quiet_env ''fs.corp.example.com'' ''cifs'' (Some smb_info) of
     Inr (Some na) \<Rightarrow>
       map mech (selections na) = [GSS_KERBEROS, GSS_NTLM, GSS_NTLM]
       \<and> is_dup (selections na ! 1) GSS_NTLM ''alice@DOMAIN'' (Some ''cifs@fs.corp.example.com'')
             kNAHNTServiceBasedName
       \<and> matching_filter na ''alice@DOMAIN'' USE_SPNEGO
       \<and> fst (addSelection True na ''alice@DOMAIN'' (Some kNAHNTUsername)
                 (Some ''cifs@fs.corp.example.com'') None GSS_NTLM (Some 0) USE_SPNEGO) = Some 1
   | _ \<Rightarrow> False"
  by code_simp

lemma same_input_gates:
  assumes "same_input na na'"
  shows "have_kerberos na' = have_kerberos na"
    "try_iakerb_with_lkdc e na' = try_iakerb_with_lkdc e na"
    "try_wlkdc e na' = try_wlkdc e na"
    "kerberos_flags na' = kerberos_flags na"
    "matching_filter na' c f = matching_filter na c f"
  using assms
  by (simp_all add: same_input_def have_kerberos_def try_iakerb_with_lkdc_def try_wlkdc_def
      kerberos_flags_def matching_filter_def haveMech_def is_smb_def del: not_None_eq)

lemma NAHCreate_wellknown:
  assumes cr: "NAHCreate e h svc info = Inr (Some created)"
    and se: "NAHCreate_session e h svc info = Some na"
    and hk: "have_kerberos na" and c1: "krb5_init_context e" and c2: "hx509_context_init e"
    and pw: "password na = Some p"
    and mf: "matching_filter na (username na @ ''@'' @ kWELLKNOWN_LKDC) (kerberos_flags na)"
    and al: "\<forall>n. CFRuntimeCreateInstance e n"
    and t: "(try_iakerb_with_lkdc e na \<and> mechtype = GSS_KERBEROS_IAKERB)
            \<or> (try_wlkdc e na \<and> mechtype = GSS_KERBEROS)"
  shows "\<exists>x \<in> set (selections created).
           mech x = mechtype \<and> client x = Some (username na @ ''@'' @ kWELLKNOWN_LKDC)
           \<and> server x = Some (service na @ ''/localhost@'' @ kWELLKNOWN_LKDC)"
proof -
  let ?S = "\<lambda>s::string option. s \<noteq> None" and ?P = "\<lambda>_::NAHMechType. True"
  from cr se obtain na1 where a: "add_user_selections e na = Inr na1"
    and b: "created = (if x509identities (guess_kerberos e na1) = None \<and> is_smb (guess_kerberos e na1)
                       then guess_ntlm e (guess_kerberos e na1) else guess_kerberos e na1)"
    by (auto simp: NAHCreate_def guessing_game_def Let_def split: sum.splits)
  have e1: "evolves ?P ?S na na1"
    by (rule add_user_selections_evolves[where P = ?P and Q = ?S, OF _ _ a]) simp_all
  from NAHCreate_session_empty[OF se] have "\<forall>x \<in> set (selections na). resolved x" by simp
  with evolves_resolved[OF e1] have r: "\<forall>x \<in> set (selections na1). resolved x" by simp
  note si = evolves_same_input[OF e1]
  note g = same_input_gates[OF si]
  from si have u: "username na1 = username na" "service na1 = service na" "password na1 = password na"
    by (simp_all add: same_input_def)
  have hk1: "have_kerberos na1" using hk by (simp only: g)
  have pw1: "password na1 = Some p" using pw by (simp only: u)
  have mf1: "matching_filter na1 (username na1 @ ''@'' @ kWELLKNOWN_LKDC) (kerberos_flags na1)"
    using mf by (simp only: g u)
  have t1: "(try_iakerb_with_lkdc e na1 \<and> mechtype = GSS_KERBEROS_IAKERB)
            \<or> (try_wlkdc e na1 \<and> mechtype = GSS_KERBEROS)"
    using t by (simp only: g)
  from guess_kerberos_wellknown[OF hk1 c1 c2 pw1 mf1 al r t1]
  obtain x where x: "x \<in> set (selections (guess_kerberos e na1))" "mech x = mechtype"
    "client x = Some (username na @ ''@'' @ kWELLKNOWN_LKDC)"
    "server x = Some (service na @ ''/localhost@'' @ kWELLKNOWN_LKDC)"
    unfolding u by blast
  have e2: "evolves ?P (\<lambda>_. True) (guess_kerberos e na1) created"
    unfolding b
    by (auto intro: ev_refl guess_ntlm_evolves[where P = ?P and Q = "\<lambda>_. True"])
  from evolves_keeps_record[OF e2 x(1)] x(2,3,4) show ?thesis by metis
qed

lemma wellknown_counterexamples:
  "case NAHCreate_session quiet_env ''peer.example'' ''vnc'' (Some bob_info) of
     Some na \<Rightarrow> try_wlkdc quiet_env na \<and> have_kerberos na \<and> password na = None
       \<and> matching_filter na (username na @ ''@'' @ kWELLKNOWN_LKDC) (kerberos_flags na)
   | None \<Rightarrow> False"
  "case NAHCreate quiet_env ''peer.example'' ''vnc'' (Some bob_info) of
     Inr (Some created) \<Rightarrow> selections created = [] | _ \<Rightarrow> False"
  "case NAHCreate_session quiet_env ''peer.example'' ''vnc'' (Some smb_info) of
     Some na \<Rightarrow> try_wlkdc quiet_env na \<and> have_kerberos na \<and> password na = Some ''p''
       \<and> specificname na = Some ''alice''
       \<and> \<not> matching_filter na (username na @ ''@'' @ kWELLKNOWN_LKDC) (kerberos_flags na)
   | None \<Rightarrow> False"
  "case NAHCreate quiet_env ''peer.example'' ''vnc'' (Some smb_info) of
     Inr (Some created) \<Rightarrow> map client (selections created) = [Some ''alice@DOMAIN'']
   | _ \<Rightarrow> False"
  "case NAHCreate_session no_context_env ''peer.example'' ''vnc'' (Some bob_password_info) of
     Some na \<Rightarrow> try_wlkdc no_context_env na \<and> have_kerberos na \<and> password na = Some ''p''
       \<and> matching_filter na (username na @ ''@'' @ kWELLKNOWN_LKDC) (kerberos_flags na)
   | None \<Rightarrow> False"
  "case NAHCreate no_context_env ''peer.example'' ''vnc'' (Some bob_password_info) of
     Inr (Some created) \<Rightarrow> selections created = [] | _ \<Rightarrow> False"
  by code_simp+

lemma wellknown_instances:
  "case NAHCreate_session quiet_env ''peer.example'' ''vnc'' (Some bob_password_info) of
     Some na \<Rightarrow> try_wlkdc quiet_env na \<and> have_kerberos na \<and> password na = Some ''p''
       \<and> username na = ''bob'' \<and> service na = ''vnc''
       \<and> matching_filter na (username na @ ''@'' @ kWELLKNOWN_LKDC) (kerberos_flags na)
   | None \<Rightarrow> False"
  "case NAHCreate quiet_env ''peer.example'' ''vnc'' (Some bob_password_info) of
     Inr (Some created) \<Rightarrow> True | _ \<Rightarrow> False"
  "case NAHCreate_session quiet_env ''peer.example'' ''afpserver'' (Some iakerb_info) of
     Some na \<Rightarrow> try_iakerb_with_lkdc quiet_env na \<and> have_kerberos na \<and> password na = Some ''p''
       \<and> username na = ''bob'' \<and> service na = ''afpserver''
       \<and> matching_filter na (username na @ ''@'' @ kWELLKNOWN_LKDC) (kerberos_flags na)
   | None \<Rightarrow> False"
  "case NAHCreate quiet_env ''peer.example'' ''afpserver'' (Some iakerb_info) of
     Inr (Some created) \<Rightarrow> True | _ \<Rightarrow> False"
  by code_simp+




lemma if_ret:
  "((if x \<noteq> 0 then Inr (x, na) else rest) = (Inr (0 :: int, na') :: error + int \<times> NAHData))
     = (x = 0 \<and> rest = Inr (0, na'))"
  by simp

lemma if_ret2:
  "((if c \<and> x \<noteq> 0 then Inr (x, na) else rest) = (Inr (0 :: int, na') :: error + int \<times> NAHData))
     = ((c \<longrightarrow> x = 0) \<and> rest = Inr (0, na'))"
  by auto

lemma case_sum_ret:
  "((case v of Inl err \<Rightarrow> Inl err | Inr r \<Rightarrow> f r) = (Inr z :: error + int \<times> NAHData))
     = (\<exists>r. v = Inr r \<and> f r = Inr z)"
  by (cases v) simp_all

lemma acquire_kerberos_success:
  assumes "acquire_kerberos e k na n pw cert = Inr (0, na')"
  shows "\<exists>cred newclient.
           krb5_init_creds_get_creds k = (0, cred) \<and> krb5_unparse_name cred = (0, newclient)
           \<and> na' = setFriendlyName e
                     (referral_update na n newclient (princ_realm cred)
                        (krb5_realm_is_lkdc k (princ_realm cred)))
                     n cert (krb5_realm_is_lkdc k (princ_realm cred))"
proof -
  from assms obtain str where s: "client (selections na ! n) = Some str"
    by (cases "client (selections na ! n)") (simp_all add: acquire_kerberos_def)
  obtain ret cl where p: "krb5_parse_name_flags k str (enterprise_name str) = (ret, cl)"
    by fastforce
  obtain r2 cred where g: "krb5_init_creds_get_creds k = (r2, cred)" by fastforce
  obtain r3 newclient where u: "krb5_unparse_name cred = (r3, newclient)" by fastforce
  from assms have "r2 = 0 \<and> r3 = 0 \<and> na' = setFriendlyName e
                     (referral_update na n newclient (princ_realm cred)
                        (krb5_realm_is_lkdc k (princ_realm cred)))
                     n cert (krb5_realm_is_lkdc k (princ_realm cred))"
    unfolding acquire_kerberos_def
    apply (simp only: s p g u option.case prod.case if_ret if_ret2 case_sum_ret)
    apply (elim conjE exE)
    apply (simp only: if_ret if_ret2 case_sum_ret sum.inject prod.inject simp_thms)
    done
  with g u show ?thesis by simp
qed

lemma setFriendlyName_induct:
  assumes "Q na" and "\<And>v. Q (sel_update n (\<lambda>x. x \<lparr> inferredLabel := Some v \<rparr>) na)"
  shows "Q (setFriendlyName e na n cert l)"
  unfolding setFriendlyName_def Let_def
  using assms by (simp split: option.splits)

lemma setFriendlyName_key:
  "client (selections (setFriendlyName e na n cert l) ! i) = client (selections na ! i)
   \<and> server (selections (setFriendlyName e na n cert l) ! i) = server (selections na ! i)"
proof (rule setFriendlyName_induct)
  show "client (selections na ! i) = client (selections na ! i)
        \<and> server (selections na ! i) = server (selections na ! i)" by simp
next
  fix v
  show "client (selections (sel_update n (\<lambda>x. x \<lparr> inferredLabel := Some v \<rparr>) na) ! i)
          = client (selections na ! i)
        \<and> server (selections (sel_update n (\<lambda>x. x \<lparr> inferredLabel := Some v \<rparr>) na) ! i)
          = server (selections na ! i)"
    by (cases "n < length (selections na)") (simp_all add: nth_list_update list_update_beyond)
qed

lemma referral_update_changed:
  assumes "n < length (selections na)" and "Some newclient \<noteq> client (selections na ! n)"
  shows "client (selections (referral_update na n newclient realm lk) ! n) = Some newclient
       \<and> server (selections (referral_update na n newclient realm lk) ! n)
         = Some (if lk then service na @ ''/'' @ realm @ ''@'' @ realm
                 else service na @ ''/'' @ hostname na @ ''@'' @ realm)"
  using assms by (simp add: referral_update_def)

lemma referral_update_same:
  assumes "Some newclient = client (selections na ! n)"
  shows "referral_update na n newclient realm lk = na"
  using assms by (simp add: referral_update_def)

lemma referral_runs:
  "case acquire_kerberos quiet_env (referral_kdc ''alice@CORP.EXAMPLE.COM'' ''CORP.EXAMPLE.COM'')
          alice_corp 0 (Some ''p'') None of
     Inr (ret, na') \<Rightarrow> ret = 0 \<and> map client (selections na') = [Some ''alice@CORP.EXAMPLE.COM'']
   | Inl err \<Rightarrow> False"
  "case acquire_kerberos quiet_env (referral_kdc ''alice@LKDC:SHA1.AB'' ''LKDC:SHA1.AB'')
          alice_corp 0 (Some ''p'') None of
     Inr (ret, na') \<Rightarrow> ret = 0 \<and> map client (selections na') = [Some ''alice@LKDC:SHA1.AB'']
   | Inl err \<Rightarrow> False"
  "case acquire_kerberos quiet_env (referral_kdc ''alice@corp'' ''corp'')
          alice_corp 0 (Some ''p'') None of
     Inr (ret, na') \<Rightarrow> ret = 0 \<and> map client (selections na') = [Some ''alice@corp'']
   | Inl err \<Rightarrow> False"
  by code_simp+

lemma alice_corp_simps:
  "length (selections alice_corp) = 1"
  "client (selections alice_corp ! 0) = Some ''alice@corp''"
  "server (selections alice_corp ! 0) = Some ''cifs/fs.example.com@CORP''"
  "service alice_corp = ''cifs''" "hostname alice_corp = ''fs.example.com''"
  by code_simp+

lemma referral_kdc_simps:
  "krb5_init_creds_get_creds (referral_kdc name realm)
     = (0, \<lparr> princ_realm = realm, krb5_unparse_name = (0, name) \<rparr>)"
  "krb5_realm_is_lkdc (referral_kdc name realm) r = prefix ''LKDC:'' r"
  by (simp_all add: referral_kdc_def)

lemma referral_instance:
  assumes run: "case acquire_kerberos quiet_env (referral_kdc name realm) alice_corp 0 (Some ''p'') None of
            Inr (ret, na') \<Rightarrow> ret = 0 \<and> map client (selections na') = [Some name]
          | Inl err \<Rightarrow> False"
  obtains na' where
    "acquire_kerberos quiet_env (referral_kdc name realm) alice_corp 0 (Some ''p'') None = Inr (0, na')"
  using run by (auto split: sum.splits)

lemma owed_Nil [simp]: "owed [] h = 0"
  by (simp add: owed_def)

lemma owed_Cons [simp]:
  "owed (x # xs) h = (if wait x = Some h then waiting x else 0) + owed xs h"
  by (simp add: owed_def)




lemma blocked_on_Nil [simp]: "blocked_on [] h = 0"
  by (simp add: blocked_on_def)

lemma blocked_on_append [simp]:
  "blocked_on (ws @ [w]) h = blocked_on ws h + (if pc w = Blocked h then 1 else 0)"
  by (simp add: blocked_on_def)

lemma blocked_on_Cons [simp]:
  "blocked_on (w # ws) h = (if pc w = Blocked h then 1 else 0) + blocked_on ws h"
  by (simp add: blocked_on_def)



lemma latch_ok_update [simp]: "latch_ok (st[h := v]) x = latch_ok st x"
  by (simp add: latch_ok_def)













































section \<open>The claims\<close>

text \<open>
  Claim C2. A call of \<open>addSelection\<close> made while the session has a specific name,
  with \<open>FORCE_ADD\<close> clear and a client that does not begin with the specific name,
  returns no selection and leaves the session, and with it the selection list, as it
  was; the cell \<open>*duplicate\<close> is not written.
\<close>

theorem addSelection_matching_filter:
  assumes "specificname na = Some sn" and "flags AND FORCE_ADD = 0" and "\<not> prefix sn c"
  shows "addSelection ok na c ct s st m d flags = (None, d, na)"
proof -
  from assms have "\<not> matching_filter na c flags"
    by (simp add: matching_filter_def CFStringHasPrefix_def)
  then show ?thesis by (rule addSelection_reject)
qed

theorem addSelection_matching_filter_witness:
  "specificname bob_session = Some ''bob'' \<and> USE_SPNEGO AND FORCE_ADD = 0
   \<and> \<not> prefix ''bob'' ''alice@EXAMPLE.COM''
   \<and> addSelection True bob_session ''alice@EXAMPLE.COM'' None None None GSS_KERBEROS
        (Some 7) USE_SPNEGO = (None, Some 7, bob_session)"
proof -
  have a: "specificname bob_session = Some ''bob''" by simp
  have b: "USE_SPNEGO AND FORCE_ADD = 0" by simp
  have c: "\<not> prefix ''bob'' ''alice@EXAMPLE.COM''" by simp
  from addSelection_matching_filter[OF a b c] a b c show ?thesis by blast
qed

text \<open>
  Claim C10. When a call of \<open>addSelection\<close> passes the filter and the list holds a
  record with the mechanism, the client, the server-name-type and (where both servers
  are present) the server of the call, the call returns such a record and the session
  it returns is the session it was given: every field of every selection, the latch
  included, and the store of semaphores are the same, whatever flags, client type or
  server string the caller passed.
\<close>

theorem addSelection_duplicate_frame:
  assumes "matching_filter na c flags"
    and "\<exists>x \<in> set (selections na). is_dup x m c s (default_type kNAHNTServiceBasedName st)"
  shows "\<exists>n < length (selections na).
           is_dup (selections na ! n) m c s (default_type kNAHNTServiceBasedName st)
           \<and> addSelection ok na c ct s st m d flags = (Some n, map_option (\<lambda>_. 1) d, na)"
  using assms by (rule addSelection_dup_exists)

theorem addSelection_duplicate_frame_witness:
  "matching_filter forced_alice ''alice'' FORCE_ADD
   \<and> is_dup (selections forced_alice ! 0) GSS_KERBEROS ''alice'' (Some ''afpserver@fs.example.com'')
        kNAHNTServiceBasedName
   \<and> addSelection True forced_alice ''alice'' (Some kNAHNTKRB5Principal)
        (Some ''afpserver@fs.example.com'') None GSS_KERBEROS (Some 0) FORCE_ADD
      = (Some 0, Some 1, forced_alice)"
proof -
  have a: "matching_filter forced_alice ''alice'' FORCE_ADD"
    by (simp add: matching_filter_def)
  have d: "is_dup (selections forced_alice ! 0) GSS_KERBEROS ''alice''
             (Some ''afpserver@fs.example.com'') kNAHNTServiceBasedName"
    by (simp add: is_dup_def default_type_def)
  then have b: "\<exists>x \<in> set (selections forced_alice). is_dup x GSS_KERBEROS ''alice''
             (Some ''afpserver@fs.example.com'') (default_type kNAHNTServiceBasedName None)"
    by (simp add: default_type_def)
  from addSelection_duplicate_frame[OF a b, of True "Some kNAHNTKRB5Principal" "Some 0"] a d
  show ?thesis by simp
qed

text \<open>
  Claim C6, as the code has it. When client certificates were supplied, or the service
  is neither \<open>cifs\<close> nor \<open>host\<close>, or the server hints do not hold the NTLM OID
  (hints absent included), the NTLM selections of the session \<open>NAHCreate\<close> returns
  are exactly the NTLM selections the user-selection overrides added; with no
  \<open>UserSelections\<close> preference there is none.
\<close>

theorem ntlm_gating:
  assumes "NAHCreate_session e h svc info = Some na0"
    and "add_user_selections e na0 = Inr na1"
    and "x509identities na0 \<noteq> None \<or> \<not> is_smb na0 \<or> \<not> haveMech na0 kGSSAPIMechNTLMOID"
  shows "\<exists>na. NAHCreate e h svc info = Inr (Some na)
           \<and> filter (\<lambda>x. mech x = GSS_NTLM) (selections na)
             = filter (\<lambda>x. mech x = GSS_NTLM) (selections na1)
           \<and> (UserSelections e = None \<longrightarrow> filter (\<lambda>x. mech x = GSS_NTLM) (selections na) = [])"
proof -
  from guessing_game_ntlm[OF assms(2,3)] obtain na where
    g: "guessing_game e na0 = Inr na"
    and f: "filter (\<lambda>x. mech x = GSS_NTLM) (selections na)
             = filter (\<lambda>x. mech x = GSS_NTLM) (selections na1)"
    by blast
  have c: "NAHCreate e h svc info = Inr (Some na)"
    using assms(1) g by (simp add: NAHCreate_def)
  have n: "UserSelections e = None \<longrightarrow> filter (\<lambda>x. mech x = GSS_NTLM) (selections na) = []"
  proof
    assume "UserSelections e = None"
    with assms(2) have "na1 = na0" by (simp add: add_user_selections_def)
    with NAHCreate_session_empty[OF assms(1)] f
    show "filter (\<lambda>x. mech x = GSS_NTLM) (selections na) = []" by simp
  qed
  show ?thesis by (intro exI[of _ na] conjI) (rule c f n)+
qed

text \<open>
  An override entry with mechanism \<open>ntlm\<close> gives an NTLM selection for the service
  \<open>afpserver\<close> with no server hints at all.
\<close>

theorem ntlm_gating_counterexample:
  "(case NAHCreate override_env ''fs.example.com.'' ''afpserver'' (Some bob_info) of
      Inr (Some na) \<Rightarrow>
        map mech (selections na) = [GSS_NTLM]
        \<and> map client (selections na) = [Some ''bob@corp'']
        \<and> \<not> is_smb na \<and> \<not> haveMech na kGSSAPIMechNTLMOID \<and> servermechs na = None
    | _ \<Rightarrow> False)"
  by code_simp

theorem ntlm_gating_witness:
  "\<exists>na0 na1. NAHCreate_session quiet_env ''mini.example.com'' ''afpserver'' (Some smb_info) = Some na0
      \<and> add_user_selections quiet_env na0 = Inr na1
      \<and> \<not> is_smb na0
      \<and> (\<exists>na. NAHCreate quiet_env ''mini.example.com'' ''afpserver'' (Some smb_info) = Inr (Some na)
            \<and> filter (\<lambda>x. mech x = GSS_NTLM) (selections na)
              = filter (\<lambda>x. mech x = GSS_NTLM) (selections na1)
            \<and> map mech (selections na) = [GSS_KERBEROS])"
proof -
  from afp_session obtain na0 where
    a: "NAHCreate_session quiet_env ''mini.example.com'' ''afpserver'' (Some smb_info) = Some na0"
    and sv: "service na0 = ''afpserver''" by blast
  have b: "add_user_selections quiet_env na0 = Inr na0"
    by (simp add: add_user_selections_def quiet_env_def)
  have c: "\<not> is_smb na0"
    by (simp add: is_smb_def sv kNAHServiceHostServer_def kNAHServiceCIFSServer_def)
  then have c': "x509identities na0 \<noteq> None \<or> \<not> is_smb na0 \<or> \<not> haveMech na0 kGSSAPIMechNTLMOID"
    by simp
  from ntlm_gating[OF a b c'] obtain na where
    d: "NAHCreate quiet_env ''mini.example.com'' ''afpserver'' (Some smb_info) = Inr (Some na)"
    and f: "filter (\<lambda>x. mech x = GSS_NTLM) (selections na)
              = filter (\<lambda>x. mech x = GSS_NTLM) (selections na0)"
    by blast
  from afp_created d have m: "map mech (selections na) = [GSS_KERBEROS]" by simp
  show ?thesis
    by (intro exI[of _ na0] exI[of _ na] conjI) (rule a b c d f m)+
qed

text \<open>
  Claim C5. For a hostname that ends in \<open>.local\<close>, \<open>.members.mac.com\<close> or
  \<open>.members.me.com\<close>, \<open>use_classic_kerberos\<close> adds nothing: it returns the session
  unchanged. For any other hostname \<open>classic_lkdc\<close> returns the session unchanged,
  and the guessers together leave no selection with an unresolved server or a pending
  latch and queue no background resolver.
\<close>

theorem lkdc_locality:
  "(is_local_hostname (hostname na) \<longrightarrow> use_classic_kerberos e na flags = na)
   \<and> (\<not> is_local_hostname (hostname na) \<longrightarrow>
        classic_lkdc e na flags = na
        \<and> (\<forall>na'. guessing_game e na = Inr na' \<and> bgq na = []
                    \<and> (\<forall>x \<in> set (selections na). resolved x) \<longrightarrow>
                  bgq na' = [] \<and> (\<forall>x \<in> set (selections na'). resolved x)))"
  using use_classic_kerberos_local[of na e flags] classic_lkdc_not_local[of na e flags]
    guessing_game_resolved[of na e]
  by blast

theorem lkdc_locality_witness:
  "is_local_hostname (hostname local_session)
   \<and> use_classic_kerberos quiet_env local_session USE_SPNEGO = local_session
   \<and> \<not> is_local_hostname (hostname remote_session)
   \<and> classic_lkdc quiet_env remote_session USE_SPNEGO = remote_session
   \<and> (\<exists>na'. guessing_game quiet_env remote_session = Inr na'
           \<and> map server (selections na') = [Some ''afpserver/fs.example.com@EXAMPLE.COM'']
           \<and> bgq na' = [] \<and> list_all resolved (selections na'))"
proof -
  have l: "is_local_hostname (hostname local_session)"
    by (simp add: local_session_def session_of_def is_local_hostname_def CFStringHasSuffix_def
          suffix_def)
  have r: "\<not> is_local_hostname (hostname remote_session)"
    unfolding remote_session_def session_of_def by code_simp
  note L = lkdc_locality[of local_session quiet_env USE_SPNEGO]
  note R = lkdc_locality[of remote_session quiet_env USE_SPNEGO]
  from L l have a: "use_classic_kerberos quiet_env local_session USE_SPNEGO = local_session"
    by blast
  from R r have b: "classic_lkdc quiet_env remote_session USE_SPNEGO = remote_session"
    by blast
  from remote_game obtain na' where
    g: "guessing_game quiet_env remote_session = Inr na'"
    and s: "map server (selections na') = [Some ''afpserver/fs.example.com@EXAMPLE.COM'']"
    by (auto split: sum.splits)
  have e: "bgq remote_session = []" "\<forall>x \<in> set (selections remote_session). resolved x"
    by (simp_all add: remote_session_def session_of_def)
  from R r g e have "bgq na' = [] \<and> (\<forall>x \<in> set (selections na'). resolved x)" by blast
  then have c: "bgq na' = []" "list_all resolved (selections na')"
    by (simp_all add: list_all_iff)
  show ?thesis
    by (intro exI[of _ na'] conjI) (rule l a r b g s c)+
qed

text \<open>
  Claim C1, as the code has it. Calls of \<open>addSelection\<close> keep the selection list free
  of two records with the same mechanism, client, server-name-type and (where both
  servers are present) server: this holds after any sequence of calls, and for the
  list of the session \<open>NAHCreate\<close> returns, whose background resolvers are still
  queued. No check follows a resolver: once \<open>classic_lkdc_background\<close> has rewritten
  the client and the server of a record, the list can hold two records with the same
  key. A call for which a record with its key exists appends nothing; when the call
  also passes the specific-name filter it returns that record and writes 1 to
  \<open>*duplicate\<close> where the caller gave a cell.
\<close>

theorem selection_set_dedup:
  "(unique_keys (selections na) \<longrightarrow> unique_keys (selections (addSelections na calls)))
   \<and> (\<forall>created. NAHCreate e h svc info = Inr (Some created) \<longrightarrow> unique_keys (selections created))
   \<and> ((\<exists>x \<in> set (selections na). is_dup x m c s (default_type kNAHNTServiceBasedName st)) \<longrightarrow>
        selections (snd (snd (addSelection ok na c ct s st m d flags))) = selections na
        \<and> (matching_filter na c flags \<longrightarrow>
             (\<exists>n < length (selections na).
                is_dup (selections na ! n) m c s (default_type kNAHNTServiceBasedName st)
                \<and> addSelection ok na c ct s st m d flags = (Some n, map_option (\<lambda>_. 1) d, na))))"
  using addSelections_unique_keys[of na calls] NAHCreate_unique_keys[of e h svc info]
    addSelection_dup_appends_nothing[of na m c s st ok ct d flags]
    addSelection_dup_exists[of na c flags m s st ok ct d]
  by blast

text \<open>
  Two inputs of \<open>NAHCreate\<close>. The first: the host \<open>mac-mini.local\<close>, the user \<open>bob\<close>
  with a password, and one LKDC cache \<open>bob@LKDC:SHA1.AA\<close> bound to that host. The
  session comes back with the cache's record and an unresolved record for \<open>bob\<close>, the
  resolver queued; when the resolver has run, the second record has the client, the
  server, the mechanism and the server-name-type of the first. The second: the service
  \<open>cifs\<close>, the username \<open>@R\<close> (the specific name is then empty, which no client
  begins with) with a password, NTLM on offer, and a held NTLM credential named \<open>@R\<close>.
  The record for \<open>@R\<close> is added with \<open>FORCE_ADD\<close>; the call made for the held
  credential has the same key and no \<open>FORCE_ADD\<close>, and it returns no selection and
  leaves \<open>*duplicate\<close> as it was.
\<close>

theorem selection_set_dedup_counterexample:
  "(case NAHCreate lkdc_env ''mac-mini.local'' ''afpserver'' (Some bob_password_info) of
      Inr (Some na) \<Rightarrow>
        bgq na = [1]
        \<and> map client (selections na) = [Some ''bob@LKDC:SHA1.AA'', Some ''bob'']
        \<and> map server (selections na) = [Some ''afpserver/LKDC:SHA1.AA@LKDC:SHA1.AA'', None]
        \<and> map mech (selections (classic_lkdc_background lkdc_env na 1))
            = [GSS_KERBEROS, GSS_KERBEROS]
        \<and> map client (selections (classic_lkdc_background lkdc_env na 1))
            = [Some ''bob@LKDC:SHA1.AA'', Some ''bob@LKDC:SHA1.AA'']
        \<and> map server (selections (classic_lkdc_background lkdc_env na 1))
            = [Some ''afpserver/LKDC:SHA1.AA@LKDC:SHA1.AA'',
               Some ''afpserver/LKDC:SHA1.AA@LKDC:SHA1.AA'']
        \<and> map servertype (selections (classic_lkdc_background lkdc_env na 1))
            = [kNAHNTKRB5PrincipalReferral, kNAHNTKRB5PrincipalReferral]
        \<and> \<not> unique_keys (selections (classic_lkdc_background lkdc_env na 1))
    | _ \<Rightarrow> False)
   \<and> (case NAHCreate held_cred_env ''fs.example.com'' ''cifs'' (Some realm_only_info) of
        Inr (Some na) \<Rightarrow>
          specificname na = Some []
          \<and> map mech (selections na) = [GSS_NTLM]
          \<and> map have_cred (selections na) = [False]
          \<and> is_dup (selections na ! 0) GSS_NTLM ''@R'' (Some ''cifs@fs.example.com'')
                kNAHNTServiceBasedName
          \<and> fst (addSelection True na ''@R'' (Some kNAHNTUsername) (Some ''cifs@fs.example.com'')
                    None GSS_NTLM (Some 0) USE_SPNEGO) = None
          \<and> fst (snd (addSelection True na ''@R'' (Some kNAHNTUsername)
                    (Some ''cifs@fs.example.com'') None GSS_NTLM (Some 0) USE_SPNEGO)) = Some 0
      | _ \<Rightarrow> False)"
  by code_simp

theorem selection_set_dedup_witness:
  "unique_keys (selections bob_session)
   \<and> map mech (selections (addSelections bob_session three_calls)) = [GSS_KERBEROS, GSS_NTLM]
   \<and> unique_keys (selections (addSelections bob_session three_calls))
   \<and> (\<exists>created. NAHCreate quiet_env ''fs.corp.example.com'' ''cifs'' (Some smb_info)
                   = Inr (Some created)
          \<and> map mech (selections created) = [GSS_KERBEROS, GSS_NTLM, GSS_NTLM]
          \<and> unique_keys (selections created)
          \<and> is_dup (selections created ! 1) GSS_NTLM ''alice@DOMAIN''
                (Some ''cifs@fs.corp.example.com'') kNAHNTServiceBasedName
          \<and> matching_filter created ''alice@DOMAIN'' USE_SPNEGO
          \<and> addSelection True created ''alice@DOMAIN'' (Some kNAHNTUsername)
                (Some ''cifs@fs.corp.example.com'') None GSS_NTLM (Some 0) USE_SPNEGO
              = (Some 1, Some 1, created))"
proof -
  note T = selection_set_dedup[of bob_session three_calls quiet_env "''fs.corp.example.com''"
      "''cifs''" "Some smb_info"]
  have u0: "unique_keys (selections bob_session)" by simp
  with T have u1: "unique_keys (selections (addSelections bob_session three_calls))" by blast
  from smb_created_dup obtain created where
    c: "NAHCreate quiet_env ''fs.corp.example.com'' ''cifs'' (Some smb_info) = Inr (Some created)"
    and m: "map mech (selections created) = [GSS_KERBEROS, GSS_NTLM, GSS_NTLM]"
    and d: "is_dup (selections created ! 1) GSS_NTLM ''alice@DOMAIN''
                (Some ''cifs@fs.corp.example.com'') kNAHNTServiceBasedName"
    and mf: "matching_filter created ''alice@DOMAIN'' USE_SPNEGO"
    and f: "fst (addSelection True created ''alice@DOMAIN'' (Some kNAHNTUsername)
                 (Some ''cifs@fs.corp.example.com'') None GSS_NTLM (Some 0) USE_SPNEGO) = Some 1"
    by (auto split: sum.splits option.splits)
  with T have u2: "unique_keys (selections created)" by blast
  from m have "length (selections created) = 3" by (metis length_map length_Cons list.size(3) numeral_3_eq_3)
  with d have ex: "\<exists>x \<in> set (selections created).
      is_dup x GSS_NTLM ''alice@DOMAIN'' (Some ''cifs@fs.corp.example.com'')
        (default_type kNAHNTServiceBasedName None)"
    by (auto simp: default_type_def intro!: bexI[of _ "selections created ! 1"])
  note U = selection_set_dedup[of created "[]" quiet_env "[]" "[]" None
      GSS_NTLM "''alice@DOMAIN''" "Some ''cifs@fs.corp.example.com''" None True
      "Some kNAHNTUsername" "Some 0" USE_SPNEGO]
  from U[THEN conjunct2, THEN conjunct2, THEN mp, OF ex, THEN conjunct2, THEN mp, OF mf] f
  have a: "addSelection True created ''alice@DOMAIN'' (Some kNAHNTUsername)
                (Some ''cifs@fs.corp.example.com'') None GSS_NTLM (Some 0) USE_SPNEGO
              = (Some 1, Some 1, created)"
    by auto
  show ?thesis
    by (intro conjI exI[of _ created]) (rule u0 three_calls_mechs u1 c m u2 d mf a)+
qed

text \<open>
  Claim C4, as the code has it. For an input of \<open>NAHCreate\<close> on which the Kerberos
  pipeline runs (Kerberos is on offer and both contexts open), with a password, with
  the client \<open><username>@WELLKNOWN:COM.APPLE.LKDC\<close> passing the specific-name
  filter and with selection instances allocated, the session returned holds a
  selection with that client and with server
  \<open><service>/localhost@WELLKNOWN:COM.APPLE.LKDC\<close>: with mechanism IAKERB when
  \<open>try_iakerb_with_lkdc\<close> is true, and with mechanism Kerberos when \<open>try_wlkdc\<close> is
  true.
\<close>

theorem wellknown_lkdc_emitted:
  assumes "NAHCreate e h svc info = Inr (Some created)"
    and "NAHCreate_session e h svc info = Some na"
    and "have_kerberos na" and "krb5_init_context e" and "hx509_context_init e"
    and "password na = Some p"
    and "matching_filter na (username na @ ''@'' @ kWELLKNOWN_LKDC) (kerberos_flags na)"
    and "\<forall>n. CFRuntimeCreateInstance e n"
  shows "(try_iakerb_with_lkdc e na \<longrightarrow>
            (\<exists>x \<in> set (selections created).
               mech x = GSS_KERBEROS_IAKERB
               \<and> client x = Some (username na @ ''@WELLKNOWN:COM.APPLE.LKDC'')
               \<and> server x = Some (service na @ ''/localhost@WELLKNOWN:COM.APPLE.LKDC'')))
       \<and> (try_wlkdc e na \<longrightarrow>
            (\<exists>x \<in> set (selections created).
               mech x = GSS_KERBEROS
               \<and> client x = Some (username na @ ''@WELLKNOWN:COM.APPLE.LKDC'')
               \<and> server x = Some (service na @ ''/localhost@WELLKNOWN:COM.APPLE.LKDC'')))"
  using NAHCreate_wellknown[OF assms, of GSS_KERBEROS_IAKERB]
    NAHCreate_wellknown[OF assms, of GSS_KERBEROS]
  by (simp add: kWELLKNOWN_LKDC_def)

text \<open>
  Three inputs of \<open>NAHCreate\<close> for the service \<open>vnc\<close>, for which \<open>try_wlkdc\<close> is true
  and Kerberos is on offer. With the user \<open>bob\<close> and no password, \<open>wellknown_lkdc\<close>
  skips the selection for the username, and the session has no selection. With a
  password and a username made of \<open>DOMAIN\<close>, a backslash and \<open>alice\<close>, the specific
  name is \<open>alice\<close>, which the client built from the whole username does not begin
  with: the filter drops it, and the one selection of the session is the classic
  \<open>alice@DOMAIN\<close>. With the user \<open>bob\<close>, a password, and a Kerberos context that does
  not open, the pipeline returns at once and the session has no selection.
\<close>

theorem wellknown_lkdc_emitted_counterexample:
  "(\<exists>na created.
      NAHCreate_session quiet_env ''peer.example'' ''vnc'' (Some bob_info) = Some na
      \<and> try_wlkdc quiet_env na \<and> have_kerberos na \<and> password na = None
      \<and> NAHCreate quiet_env ''peer.example'' ''vnc'' (Some bob_info) = Inr (Some created)
      \<and> selections created = [])
   \<and> (\<exists>na created.
      NAHCreate_session quiet_env ''peer.example'' ''vnc'' (Some smb_info) = Some na
      \<and> try_wlkdc quiet_env na \<and> have_kerberos na \<and> password na = Some ''p''
      \<and> specificname na = Some ''alice''
      \<and> \<not> matching_filter na (username na @ ''@'' @ kWELLKNOWN_LKDC) (kerberos_flags na)
      \<and> NAHCreate quiet_env ''peer.example'' ''vnc'' (Some smb_info) = Inr (Some created)
      \<and> map client (selections created) = [Some ''alice@DOMAIN''])
   \<and> (\<exists>na created.
      NAHCreate_session no_context_env ''peer.example'' ''vnc'' (Some bob_password_info) = Some na
      \<and> try_wlkdc no_context_env na \<and> have_kerberos na \<and> password na = Some ''p''
      \<and> matching_filter na (username na @ ''@'' @ kWELLKNOWN_LKDC) (kerberos_flags na)
      \<and> NAHCreate no_context_env ''peer.example'' ''vnc'' (Some bob_password_info)
          = Inr (Some created)
      \<and> selections created = [])"
proof (intro conjI)
  from wellknown_counterexamples(1,2)
  show "\<exists>na created.
      NAHCreate_session quiet_env ''peer.example'' ''vnc'' (Some bob_info) = Some na
      \<and> try_wlkdc quiet_env na \<and> have_kerberos na \<and> password na = None
      \<and> NAHCreate quiet_env ''peer.example'' ''vnc'' (Some bob_info) = Inr (Some created)
      \<and> selections created = []"
    by (auto split: option.splits sum.splits)
  from wellknown_counterexamples(3,4)
  show "\<exists>na created.
      NAHCreate_session quiet_env ''peer.example'' ''vnc'' (Some smb_info) = Some na
      \<and> try_wlkdc quiet_env na \<and> have_kerberos na \<and> password na = Some ''p''
      \<and> specificname na = Some ''alice''
      \<and> \<not> matching_filter na (username na @ ''@'' @ kWELLKNOWN_LKDC) (kerberos_flags na)
      \<and> NAHCreate quiet_env ''peer.example'' ''vnc'' (Some smb_info) = Inr (Some created)
      \<and> map client (selections created) = [Some ''alice@DOMAIN'']"
    by (auto split: option.splits sum.splits)
  from wellknown_counterexamples(5,6)
  show "\<exists>na created.
      NAHCreate_session no_context_env ''peer.example'' ''vnc'' (Some bob_password_info) = Some na
      \<and> try_wlkdc no_context_env na \<and> have_kerberos na \<and> password na = Some ''p''
      \<and> matching_filter na (username na @ ''@'' @ kWELLKNOWN_LKDC) (kerberos_flags na)
      \<and> NAHCreate no_context_env ''peer.example'' ''vnc'' (Some bob_password_info)
          = Inr (Some created)
      \<and> selections created = []"
    by (auto split: option.splits sum.splits)
qed

theorem wellknown_lkdc_emitted_witness:
  "(\<exists>na created.
      NAHCreate_session quiet_env ''peer.example'' ''vnc'' (Some bob_password_info) = Some na
      \<and> NAHCreate quiet_env ''peer.example'' ''vnc'' (Some bob_password_info) = Inr (Some created)
      \<and> try_wlkdc quiet_env na
      \<and> (\<exists>x \<in> set (selections created).
            mech x = GSS_KERBEROS
            \<and> client x = Some ''bob@WELLKNOWN:COM.APPLE.LKDC''
            \<and> server x = Some ''vnc/localhost@WELLKNOWN:COM.APPLE.LKDC''))
   \<and> (\<exists>na created.
      NAHCreate_session quiet_env ''peer.example'' ''afpserver'' (Some iakerb_info) = Some na
      \<and> NAHCreate quiet_env ''peer.example'' ''afpserver'' (Some iakerb_info) = Inr (Some created)
      \<and> try_iakerb_with_lkdc quiet_env na
      \<and> (\<exists>x \<in> set (selections created).
            mech x = GSS_KERBEROS_IAKERB
            \<and> client x = Some ''bob@WELLKNOWN:COM.APPLE.LKDC''
            \<and> server x = Some ''afpserver/localhost@WELLKNOWN:COM.APPLE.LKDC''))"
proof -
  have q: "krb5_init_context quiet_env" "hx509_context_init quiet_env"
    "\<forall>n. CFRuntimeCreateInstance quiet_env n"
    by (simp_all add: quiet_env_def)
  from wellknown_instances(1) obtain na where
    v: "NAHCreate_session quiet_env ''peer.example'' ''vnc'' (Some bob_password_info) = Some na"
      "try_wlkdc quiet_env na" "have_kerberos na" "password na = Some ''p''"
      "username na = ''bob''" "service na = ''vnc''"
      "matching_filter na (username na @ ''@'' @ kWELLKNOWN_LKDC) (kerberos_flags na)"
    by (auto split: option.splits)
  from wellknown_instances(2) obtain created where
    vc: "NAHCreate quiet_env ''peer.example'' ''vnc'' (Some bob_password_info) = Inr (Some created)"
    by (auto split: option.splits sum.splits)
  note V = wellknown_lkdc_emitted[OF vc v(1) v(3) q(1,2) v(4) v(7) q(3)]
  from V v(2) have a: "\<exists>x \<in> set (selections created).
            mech x = GSS_KERBEROS
            \<and> client x = Some ''bob@WELLKNOWN:COM.APPLE.LKDC''
            \<and> server x = Some ''vnc/localhost@WELLKNOWN:COM.APPLE.LKDC''"
    by (simp add: v(5,6))
  from wellknown_instances(3) obtain na' where
    i: "NAHCreate_session quiet_env ''peer.example'' ''afpserver'' (Some iakerb_info) = Some na'"
      "try_iakerb_with_lkdc quiet_env na'" "have_kerberos na'" "password na' = Some ''p''"
      "username na' = ''bob''" "service na' = ''afpserver''"
      "matching_filter na' (username na' @ ''@'' @ kWELLKNOWN_LKDC) (kerberos_flags na')"
    by (auto split: option.splits)
  from wellknown_instances(4) obtain created' where
    ic: "NAHCreate quiet_env ''peer.example'' ''afpserver'' (Some iakerb_info) = Inr (Some created')"
    by (auto split: option.splits sum.splits)
  note I = wellknown_lkdc_emitted[OF ic i(1) i(3) q(1,2) i(4) i(7) q(3)]
  from I i(2) have b: "\<exists>x \<in> set (selections created').
            mech x = GSS_KERBEROS_IAKERB
            \<and> client x = Some ''bob@WELLKNOWN:COM.APPLE.LKDC''
            \<and> server x = Some ''afpserver/localhost@WELLKNOWN:COM.APPLE.LKDC''"
    by (simp add: i(5,6))
  show ?thesis
    by (intro conjI exI[of _ na] exI[of _ created] exI[of _ na'] exI[of _ created'])
       (rule v(1) vc v(2) a i(1) ic i(2) b)+
qed




text \<open>
  Claim C9, as the code has it. For a selection with a client, the reference key is
  \<open>krb5:<client>\<close> when the mechanism is Kerberos, KerberosIAKERB or KerberosPKU2U and
  \<open>ntlm:<client>\<close> when it is NTLM; for KerberosU2U, as for no mechanism, there is no
  key.
\<close>

theorem reference_key:
  assumes "client selection = Some c"
  shows "NAHCopyReferenceKey selection =
           (if mech selection = GSS_KERBEROS \<or> mech selection = GSS_KERBEROS_IAKERB
               \<or> mech selection = GSS_KERBEROS_PKU2U
            then Some (''krb5:'' @ c)
            else if mech selection = GSS_NTLM then Some (''ntlm:'' @ c)
            else None)"
  using assms by (cases "mech selection") (simp_all add: NAHCopyReferenceKey_def)

text \<open>
  An override entry whose \<open>mech\<close> is \<open>KerberosUser2User\<close> gives a selection with the
  mechanism KerberosU2U and a client, and that selection has no reference key.
\<close>

theorem reference_key_counterexample:
  "(case NAHCreate u2u_env ''fs.example.com'' ''afpserver'' (Some bob_info) of
      Inr (Some na) \<Rightarrow>
        map mech (selections na) = [GSS_KERBEROS_U2U]
        \<and> map client (selections na) = [Some ''bob@CORP'']
        \<and> map NAHCopyReferenceKey (selections na) = [None]
    | _ \<Rightarrow> False)"
  by code_simp

theorem reference_key_witness:
  "client (selections alice_corp ! 0) = Some ''alice@corp''
   \<and> mech (selections alice_corp ! 0) = GSS_KERBEROS
   \<and> NAHCopyReferenceKey (selections alice_corp ! 0) = Some ''krb5:alice@corp''"
proof -
  have a: "client (selections alice_corp ! 0) = Some ''alice@corp''"
    and m: "mech (selections alice_corp ! 0) = GSS_KERBEROS"
    by code_simp+
  from reference_key[OF a] m a show ?thesis by simp
qed

text \<open>
  Claim C8. When \<open>acquire_kerberos\<close> returns 0 for a selection of the list, the KDC has
  returned a client principal that unparses to a string \<open>newclient\<close>. If that string
  differs from the selection's client, the client becomes \<open>newclient\<close> and the server
  becomes \<open><service>/<realm>@<realm>\<close> when the realm of the returned principal is an LKDC
  realm and \<open><service>/<hostname>@<realm>\<close> otherwise; if it is equal, client and server
  stay as they were.
\<close>

theorem acquire_kerberos_referral:
  assumes "acquire_kerberos e k na n pw cert = Inr (0, na')"
    and "n < length (selections na)"
  shows "\<exists>cred newclient.
           krb5_init_creds_get_creds k = (0, cred) \<and> krb5_unparse_name cred = (0, newclient)
           \<and> (Some newclient \<noteq> client (selections na ! n) \<longrightarrow>
                client (selections na' ! n) = Some newclient
                \<and> server (selections na' ! n)
                  = Some (if krb5_realm_is_lkdc k (princ_realm cred)
                          then service na @ ''/'' @ princ_realm cred @ ''@'' @ princ_realm cred
                          else service na @ ''/'' @ hostname na @ ''@'' @ princ_realm cred))
           \<and> (Some newclient = client (selections na ! n) \<longrightarrow>
                client (selections na' ! n) = client (selections na ! n)
                \<and> server (selections na' ! n) = server (selections na ! n))"
proof -
  from acquire_kerberos_success[OF assms(1)] obtain cred newclient where
    c: "krb5_init_creds_get_creds k = (0, cred)" and u: "krb5_unparse_name cred = (0, newclient)"
    and n: "na' = setFriendlyName e
                     (referral_update na n newclient (princ_realm cred)
                        (krb5_realm_is_lkdc k (princ_realm cred)))
                     n cert (krb5_realm_is_lkdc k (princ_realm cred))"
    by blast
  have k: "client (selections na' ! n)
             = client (selections (referral_update na n newclient (princ_realm cred)
                        (krb5_realm_is_lkdc k (princ_realm cred))) ! n)"
    "server (selections na' ! n)
             = server (selections (referral_update na n newclient (princ_realm cred)
                        (krb5_realm_is_lkdc k (princ_realm cred))) ! n)"
    unfolding n using setFriendlyName_key by blast+
  have a: "Some newclient \<noteq> client (selections na ! n) \<longrightarrow>
                client (selections na' ! n) = Some newclient
                \<and> server (selections na' ! n)
                  = Some (if krb5_realm_is_lkdc k (princ_realm cred)
                          then service na @ ''/'' @ princ_realm cred @ ''@'' @ princ_realm cred
                          else service na @ ''/'' @ hostname na @ ''@'' @ princ_realm cred)"
    unfolding k using referral_update_changed[OF assms(2)] by blast
  have b: "Some newclient = client (selections na ! n) \<longrightarrow>
                client (selections na' ! n) = client (selections na ! n)
                \<and> server (selections na' ! n) = server (selections na ! n)"
    unfolding k using referral_update_same by simp
  show ?thesis
    by (intro exI[of _ cred] exI[of _ newclient] conjI) (rule c u a b)+
qed

theorem acquire_kerberos_referral_witness:
  "(\<exists>na'. acquire_kerberos quiet_env (referral_kdc ''alice@CORP.EXAMPLE.COM'' ''CORP.EXAMPLE.COM'')
             alice_corp 0 (Some ''p'') None = Inr (0, na')
          \<and> client (selections na' ! 0) = Some ''alice@CORP.EXAMPLE.COM''
          \<and> server (selections na' ! 0) = Some ''cifs/fs.example.com@CORP.EXAMPLE.COM'')
   \<and> (\<exists>na'. acquire_kerberos quiet_env (referral_kdc ''alice@LKDC:SHA1.AB'' ''LKDC:SHA1.AB'')
             alice_corp 0 (Some ''p'') None = Inr (0, na')
          \<and> client (selections na' ! 0) = Some ''alice@LKDC:SHA1.AB''
          \<and> server (selections na' ! 0) = Some ''cifs/LKDC:SHA1.AB@LKDC:SHA1.AB'')
   \<and> (\<exists>na'. acquire_kerberos quiet_env (referral_kdc ''alice@corp'' ''corp'')
             alice_corp 0 (Some ''p'') None = Inr (0, na')
          \<and> client (selections na' ! 0) = Some ''alice@corp''
          \<and> server (selections na' ! 0) = Some ''cifs/fs.example.com@CORP'')"
proof -
  have n: "0 < length (selections alice_corp)" by (simp add: alice_corp_simps)
  have a: "\<exists>na'. acquire_kerberos quiet_env (referral_kdc ''alice@CORP.EXAMPLE.COM'' ''CORP.EXAMPLE.COM'')
             alice_corp 0 (Some ''p'') None = Inr (0, na')
          \<and> client (selections na' ! 0) = Some ''alice@CORP.EXAMPLE.COM''
          \<and> server (selections na' ! 0) = Some ''cifs/fs.example.com@CORP.EXAMPLE.COM''"
  proof -
    from referral_runs(1) obtain na' where
      r: "acquire_kerberos quiet_env (referral_kdc ''alice@CORP.EXAMPLE.COM'' ''CORP.EXAMPLE.COM'')
            alice_corp 0 (Some ''p'') None = Inr (0, na')"
      by (rule referral_instance)
    from acquire_kerberos_referral[OF r n]
    have "client (selections na' ! 0) = Some ''alice@CORP.EXAMPLE.COM''
          \<and> server (selections na' ! 0) = Some ''cifs/fs.example.com@CORP.EXAMPLE.COM''"
      by (auto simp: referral_kdc_simps alice_corp_simps)
    with r show ?thesis by blast
  qed
  have b: "\<exists>na'. acquire_kerberos quiet_env (referral_kdc ''alice@LKDC:SHA1.AB'' ''LKDC:SHA1.AB'')
             alice_corp 0 (Some ''p'') None = Inr (0, na')
          \<and> client (selections na' ! 0) = Some ''alice@LKDC:SHA1.AB''
          \<and> server (selections na' ! 0) = Some ''cifs/LKDC:SHA1.AB@LKDC:SHA1.AB''"
  proof -
    from referral_runs(2) obtain na' where
      r: "acquire_kerberos quiet_env (referral_kdc ''alice@LKDC:SHA1.AB'' ''LKDC:SHA1.AB'')
            alice_corp 0 (Some ''p'') None = Inr (0, na')"
      by (rule referral_instance)
    from acquire_kerberos_referral[OF r n]
    have "client (selections na' ! 0) = Some ''alice@LKDC:SHA1.AB''
          \<and> server (selections na' ! 0) = Some ''cifs/LKDC:SHA1.AB@LKDC:SHA1.AB''"
      by (auto simp: referral_kdc_simps alice_corp_simps)
    with r show ?thesis by blast
  qed
  have c: "\<exists>na'. acquire_kerberos quiet_env (referral_kdc ''alice@corp'' ''corp'')
             alice_corp 0 (Some ''p'') None = Inr (0, na')
          \<and> client (selections na' ! 0) = Some ''alice@corp''
          \<and> server (selections na' ! 0) = Some ''cifs/fs.example.com@CORP''"
  proof -
    from referral_runs(3) obtain na' where
      r: "acquire_kerberos quiet_env (referral_kdc ''alice@corp'' ''corp'')
            alice_corp 0 (Some ''p'') None = Inr (0, na')"
      by (rule referral_instance)
    from acquire_kerberos_referral[OF r n]
    have "client (selections na' ! 0) = Some ''alice@corp''
          \<and> server (selections na' ! 0) = Some ''cifs/fs.example.com@CORP''"
      by (auto simp: referral_kdc_simps alice_corp_simps)
    with r show ?thesis by blast
  qed
  show ?thesis by (intro conjI) (rule a b c)+
qed



end
